theory Spec2Isabelle
  imports Complex_Main
begin

section \<open>Shared data: coordinates, points, errors\<close>

text \<open>
  Coordinates are JavaScript numbers. They are modelled as reals: the arithmetic of the
  code (\<open>+\<close>, \<open>-\<close>, \<open>/\<close>, \<open>Math.min\<close>, \<open>Math.max\<close>) is read over the
  reals, without IEEE rounding, infinities or NaN.
\<close>

type_synonym coordinate = real

record point =
  pt_x :: coordinate
  pt_y :: coordinate

text \<open>
  The exceptions the code can raise: \<open>ensureNotNull\<close> on a null value, the
  \<open>Error\<close> thrown by \<open>setSize\<close>, and the \<open>TypeError\<close> of a property read
  on \<open>undefined\<close> (an array read past the end).
\<close>

datatype error = EnsureNotNull | InvalidSize real real | TypeError

section \<open>Area fill renderer (src/renderers/area-renderer.ts)\<close>

record line_item =
  item_x :: coordinate
  item_y :: coordinate

text \<open>
  Modelled from the spec: the type \<open>LineType\<close> of \<open>draw-line\<close> is not among the
  sources; the spec names the interpolation strategies straight, step and curved.
\<close>

datatype line_type = Simple | WithSteps | Curved

record series_items_indexes_range =
  range_from :: nat
  range_to :: nat

record pane_renderer_area_data =
  items :: "line_item list"
  lineType :: line_type
  lineColor :: string
  lineWidth :: real
  lineStyle :: nat
  topColor :: string
  topMiddleColor :: string
  bottomMiddleColor :: string
  bottomColor :: string
  bottom :: coordinate
  barWidth :: real
  visibleRange :: "series_items_indexes_range option"

text \<open>
  The canvas context is an external object: the model records the calls made on it, in
  order. \<open>WalkTo\<close> is one step of the external line-walking routine: the path advances
  to an item's point by the given interpolation strategy.
\<close>

datatype ctx_cmd =
    SetLineCap string
  | SetLineJoin string
  | SetStrokeStyle string
  | SetLineWidth real
  | SetLineStyle nat
  | BeginPath
  | MoveTo coordinate coordinate
  | LineTo coordinate coordinate
  | WalkTo line_type coordinate coordinate
  | ClosePath
  | CreateLinearGradient real real real real
  | AddColorStop real string
  | SetFillStyleGradient
  | Fill

text \<open>
  A drawing routine returns the calls it made and the exception that stopped it, if any:
  calls made before a throw stay made.
\<close>

type_synonym draw_result = "ctx_cmd list \<times> error option"

definition emit :: "ctx_cmd list \<Rightarrow> draw_result" where
  "emit cs = (cs, None)"

definition throw_draw :: "error \<Rightarrow> draw_result" where
  "throw_draw e = ([], Some e)"

definition then_draw :: "draw_result \<Rightarrow> draw_result \<Rightarrow> draw_result" where
  "then_draw a b =
     (case snd a of
        Some e \<Rightarrow> a
      | None \<Rightarrow> (fst a @ fst b, snd b))"

text \<open>\<open>items[i]\<close> followed by a property read: a \<open>TypeError\<close> past the end.\<close>

definition with_item :: "line_item list \<Rightarrow> nat \<Rightarrow> (line_item \<Rightarrow> draw_result) \<Rightarrow> draw_result" where
  "with_item its i k = (if i < length its then k (its ! i) else throw_draw TypeError)"

text \<open>
  Modelled from the spec: \<open>walkLine\<close> (\<open>walk-line\<close>) is not among the sources. The
  spec: after the path has dropped to \<open>(x[from], y[from])\<close> it "walks forward through
  the interpolation strategy (straight/step/curved, delegated to an external line-walking
  routine) across the visible range". The routine is called with the items, the line
  type, the visible range and the advanced \<open>from\<close>; it is modelled as the loop
  \<open>for (i = from + 1; i < visibleRange.to; ++i)\<close> that advances the path to item
  \<open>i\<close>.
\<close>

fun walkSteps :: "line_item list \<Rightarrow> line_type \<Rightarrow> nat list \<Rightarrow> draw_result" where
  "walkSteps its lt [] = emit []"
| "walkSteps its lt (i # rest) =
     with_item its i (\<lambda>p.
       then_draw (emit [WalkTo lt (item_x p) (item_y p)]) (walkSteps its lt rest))"

definition walkLine ::
  "line_item list \<Rightarrow> line_type \<Rightarrow> series_items_indexes_range \<Rightarrow> nat \<Rightarrow> draw_result" where
  "walkLine its lt vr from = walkSteps its lt [Suc from ..< range_to vr]"

text \<open>\<open>let from = visibleRange.from; if (from == 0) from++;\<close>\<close>

definition advancedFrom :: "series_items_indexes_range \<Rightarrow> nat" where
  "advancedFrom vr = (if range_from vr = 0 then range_from vr + 1 else range_from vr)"

text \<open>The \<open>items.length === 1\<close> branch of \<open>_drawImpl\<close>.\<close>

definition singlePointPath :: "pane_renderer_area_data \<Rightarrow> draw_result" where
  "singlePointPath d =
     with_item (items d) 0 (\<lambda>p.
       let halfBarWidth = barWidth d / 2 in
       emit [MoveTo (item_x p - halfBarWidth) (item_y p),
             LineTo (item_x p - halfBarWidth) (item_y p),
             LineTo (item_x p + halfBarWidth) (item_y p),
             LineTo (item_x p + halfBarWidth) (item_y p)])"

text \<open>The \<open>else\<close> branch of \<open>_drawImpl\<close>.\<close>

definition multiPointPath ::
  "pane_renderer_area_data \<Rightarrow> series_items_indexes_range \<Rightarrow> nat \<Rightarrow> draw_result" where
  "multiPointPath d vr from =
     with_item (items d) from (\<lambda>pf.
     with_item (items d) 0 (\<lambda>p0.
       then_draw (emit [MoveTo (item_x pf) (item_y p0), LineTo (item_x pf) (item_y pf)])
      (then_draw (walkLine (items d) (lineType d) vr from)
        (if range_to vr > from then
           with_item (items d) (range_to vr - 1) (\<lambda>pl.
             emit [LineTo (item_x pl) (item_y p0), LineTo (item_x pf) (item_y p0)])
         else emit []))))"

definition gradientFill :: "pane_renderer_area_data \<Rightarrow> draw_result" where
  "gradientFill d =
     with_item (items d) 0 (\<lambda>p0.
       emit [CreateLinearGradient 0 (item_y p0 - bottom d / 3) 0 (item_y p0 + bottom d / 3),
             AddColorStop 0 (topColor d),
             AddColorStop 0.5 (topMiddleColor d),
             AddColorStop 0.5 (bottomMiddleColor d),
             AddColorStop 1 (bottomColor d),
             SetFillStyleGradient,
             Fill])"

definition strokeSetup :: "pane_renderer_area_data \<Rightarrow> ctx_cmd list" where
  "strokeSetup d =
     [SetLineCap ''butt'', SetLineJoin ''round'', SetStrokeStyle (lineColor d),
      SetLineWidth (lineWidth d), SetLineStyle (lineStyle d), SetLineWidth 1, BeginPath]"

text \<open>The path part of \<open>_drawImpl\<close>: from \<open>beginPath\<close> (excluded) to \<open>closePath\<close>.\<close>

definition areaPath :: "pane_renderer_area_data \<Rightarrow> series_items_indexes_range \<Rightarrow> draw_result" where
  "areaPath d vr =
     (let from = advancedFrom vr in
      then_draw
        (if length (items d) = 1 then singlePointPath d else multiPointPath d vr from)
        (emit [ClosePath]))"

text \<open>\<open>PaneRendererArea._drawImpl\<close>, on the renderer's \<open>_data\<close> field.\<close>

definition drawImpl :: "pane_renderer_area_data option \<Rightarrow> draw_result" where
  "drawImpl data =
     (case data of
        None \<Rightarrow> emit []
      | Some d \<Rightarrow>
          if length (items d) = 0 then emit []
          else (case visibleRange d of
                  None \<Rightarrow> emit []
                | Some vr \<Rightarrow>
                    then_draw (emit (strokeSetup d))
                   (then_draw (areaPath d vr) (gradientFill d))))"

subsection \<open>Reading a path\<close>

text \<open>
  What the canvas does with path calls: \<open>moveTo\<close> starts a subpath, \<open>lineTo\<close> and a
  walk step extend it, \<open>closePath\<close> returns to the start of the current subpath. The
  state is the start of the current subpath and the current point.
\<close>

fun pathStep :: "(point option \<times> point option) \<Rightarrow> ctx_cmd \<Rightarrow> (point option \<times> point option)" where
  "pathStep s BeginPath = (None, None)"
| "pathStep s (MoveTo a b) = (Some \<lparr>pt_x = a, pt_y = b\<rparr>, Some \<lparr>pt_x = a, pt_y = b\<rparr>)"
| "pathStep s (LineTo a b) =
     (case fst s of
        None \<Rightarrow> (Some \<lparr>pt_x = a, pt_y = b\<rparr>, Some \<lparr>pt_x = a, pt_y = b\<rparr>)
      | Some st \<Rightarrow> (Some st, Some \<lparr>pt_x = a, pt_y = b\<rparr>))"
| "pathStep s (WalkTo lt a b) =
     (case fst s of
        None \<Rightarrow> (Some \<lparr>pt_x = a, pt_y = b\<rparr>, Some \<lparr>pt_x = a, pt_y = b\<rparr>)
      | Some st \<Rightarrow> (Some st, Some \<lparr>pt_x = a, pt_y = b\<rparr>))"
| "pathStep s ClosePath = (fst s, fst s)"
| "pathStep s c = s"

definition pathEnd :: "ctx_cmd list \<Rightarrow> point option" where
  "pathEnd cs = snd (foldl pathStep (None, None) cs)"

fun pathStart :: "ctx_cmd list \<Rightarrow> point option" where
  "pathStart [] = None"
| "pathStart (MoveTo a b # cs) = Some \<lparr>pt_x = a, pt_y = b\<rparr>"
| "pathStart (c # cs) = pathStart cs"

text \<open>The vertices of a path, in the order the path reaches them.\<close>

fun vertices :: "ctx_cmd list \<Rightarrow> point list" where
  "vertices [] = []"
| "vertices (MoveTo a b # cs) = \<lparr>pt_x = a, pt_y = b\<rparr> # vertices cs"
| "vertices (LineTo a b # cs) = \<lparr>pt_x = a, pt_y = b\<rparr> # vertices cs"
| "vertices (WalkTo lt a b # cs) = \<lparr>pt_x = a, pt_y = b\<rparr> # vertices cs"
| "vertices (c # cs) = vertices cs"

definition itemPoint :: "line_item \<Rightarrow> point" where
  "itemPoint p = \<lparr>pt_x = item_x p, pt_y = item_y p\<rparr>"

section \<open>The pane controller and its collaborators (PaneWidget)\<close>

subsection \<open>Views, renderers, sources and the pane\<close>

text \<open>
  \<open>IPaneRenderer\<close>, \<open>IPaneView\<close>, \<open>IDataSource\<close> and \<open>Pane\<close> are interfaces
  of collaborators. A renderer has an optional \<open>hitTest\<close> method; a view gives a
  renderer or null for a height and a width, and has optional move and click handlers; a
  source has its pane views for the pane; the pane has its ordered sources. The hovered
  object a hit test returns is opaque to the controller.
\<close>

type_synonym hovered_object = nat

record pane_renderer =
  r_hitTest :: "(coordinate \<Rightarrow> coordinate \<Rightarrow> hovered_object option) option"

record pane_view =
  v_id :: nat
  v_renderer :: "real \<Rightarrow> real \<Rightarrow> pane_renderer option"
  v_moveHandler :: bool
  v_clickHandler :: bool

record data_source =
  s_id :: nat
  s_paneViews :: "pane_view list"

record pane =
  orderedSources :: "data_source list"

record hit_test_pane_view_result =
  hv_view :: pane_view
  hv_object :: hovered_object

record hit_test_result =
  ht_source :: data_source
  ht_view :: pane_view
  ht_object :: hovered_object

subsection \<open>Calls on collaborators\<close>

text \<open>
  The chart model, the views, the document and the frame scheduler are external. The
  model records every call the controller makes on them, in order, with its arguments.
\<close>

datatype call =
    RendererOf nat real real
  | HitTestOf nat coordinate coordinate
  | SetAndSaveCurrentPosition coordinate coordinate
  | ClearCurrentPosition
  | SetHoveredSource "(nat \<times> hovered_object) option"
  | MoveHandler nat coordinate coordinate
  | ClickHandler nat coordinate coordinate
  | ClickedFire "int option" coordinate coordinate
  | StartScrollPrice coordinate
  | ScrollPriceTo coordinate
  | EndScrollPrice
  | StartScrollTime coordinate
  | ScrollTimeTo coordinate
  | EndScrollTime
  | ZoomTime coordinate real
  | BlurActiveElement
  | RemoveAllRanges
  | RequestAnimationFrame nat

subsection \<open>Kinetic animation objects\<close>

text \<open>
  Modelled from the spec: the class \<open>KineticAnimation\<close> (\<open>kinetic-animation\<close>) is
  not among the sources. The spec: \<open>addPosition\<close> records a position and its
  timestamp in a history; \<open>start\<close> records the start position and timestamp;
  \<open>terminate()\<close> is the external cancellation, and \<open>terminated()\<close> tells whether it
  was called. What \<open>finished(now)\<close> and \<open>getPosition(now)\<close> compute from the
  recorded data is left to the environment below.
\<close>

record kinetic_animation =
  ka_minSpeed :: real
  ka_maxSpeed :: real
  ka_dumpingCoeff :: real
  ka_minMove :: real
  ka_positions :: "(coordinate \<times> real) list"
  ka_started :: "(coordinate \<times> real) option"
  ka_terminated :: bool

definition newKineticAnimation :: "real \<Rightarrow> real \<Rightarrow> real \<Rightarrow> real \<Rightarrow> kinetic_animation" where
  "newKineticAnimation minSpeed maxSpeed dumpingCoeff minMove =
     \<lparr>ka_minSpeed = minSpeed, ka_maxSpeed = maxSpeed, ka_dumpingCoeff = dumpingCoeff,
      ka_minMove = minMove, ka_positions = [], ka_started = None, ka_terminated = False\<rparr>"

definition addPosition :: "coordinate \<Rightarrow> real \<Rightarrow> kinetic_animation \<Rightarrow> kinetic_animation" where
  "addPosition pos t k = k\<lparr>ka_positions := ka_positions k @ [(pos, t)]\<rparr>"

definition start :: "coordinate \<Rightarrow> real \<Rightarrow> kinetic_animation \<Rightarrow> kinetic_animation" where
  "start pos t k = k\<lparr>ka_started := Some (pos, t)\<rparr>"

definition terminate :: "kinetic_animation \<Rightarrow> kinetic_animation" where
  "terminate k = k\<lparr>ka_terminated := True\<rparr>"

definition terminated :: "kinetic_animation \<Rightarrow> bool" where
  "terminated k = ka_terminated k"

text \<open>The constants of \<open>const enum Constants\<close>.\<close>

definition MinScrollSpeed :: real where "MinScrollSpeed = 0.2"
definition MaxScrollSpeed :: real where "MaxScrollSpeed = 7"
definition DumpingCoeff :: real where "DumpingCoeff = 0.997"
definition ScrollMinMove :: real where "ScrollMinMove = 15"

subsection \<open>Events, options and the environment\<close>

datatype input_type = Mouse | Touch

record touch_mouse_event =
  clientX :: coordinate
  clientY :: coordinate
  localX :: coordinate
  localY :: coordinate
  ev_type :: input_type

record handle_scroll_options =
  pressedMouseMove :: bool
  horzTouchDrag :: bool
  vertTouchDrag :: bool

record kinetic_scroll_options =
  kinetic_touch :: bool
  kinetic_mouse :: bool

record chart_options =
  handleScroll :: handle_scroll_options
  kineticScroll :: kinetic_scroll_options
  handleScale_pinch :: bool

datatype active_element = ActiveNull | ActiveBody | ActiveDocumentElement | ActiveOther

text \<open>
  What the controller reads from outside itself. \<open>isMobile\<close> and \<open>mobileTouch\<close> are
  the constants of \<open>support-touch\<close>. The queries on the chart model (time scale, default
  price scale, crosshair source) are answered from the calls made so far: any
  deterministic model is such a function.
\<close>

record env =
  isMobile :: bool
  mobileTouch :: bool
  options :: chart_options
  activeElement :: active_element
  hasSelection :: bool
  timeScaleIsEmpty :: "call list \<Rightarrow> bool"
  priceScaleIsEmpty :: "call list \<Rightarrow> bool"
  appliedX :: "call list \<Rightarrow> coordinate"
  appliedY :: "call list \<Rightarrow> coordinate"
  appliedIndex :: "call list \<Rightarrow> int option"
  rightOffset :: "call list \<Rightarrow> real"
  finished :: "kinetic_animation \<Rightarrow> real \<Rightarrow> bool"
  getPosition :: "kinetic_animation \<Rightarrow> real \<Rightarrow> coordinate"

text \<open>\<open>const trackCrosshairOnlyAfterLongTap = isMobile;\<close>\<close>

definition trackCrosshairOnlyAfterLongTap :: "env \<Rightarrow> bool" where
  "trackCrosshairOnlyAfterLongTap e = isMobile e"

subsection \<open>The controller's state\<close>

record size_wh =
  size_w :: real
  size_h :: real

record start_scroll_position =
  ssp_x :: coordinate
  ssp_y :: coordinate
  ssp_timestamp :: real
  ssp_localX :: coordinate
  ssp_localY :: coordinate

datatype css_length = Unset | Px real

text \<open>
  The fields of \<open>PaneWidget\<close> (a private field \<open>_f\<close> is \<open>pw_f\<close>), with the two canvas
  bindings as the size they were last resized to and the pane cell as its style width and
  height; then the store of kinetic animation objects (\<open>pw_scrollXAnimation\<close> and the
  animation callbacks hold addresses into it) and the calls made on collaborators.
\<close>

record world =
  pw_state :: "pane option"
  pw_size :: size_wh
  pw_canvasBinding :: size_wh
  pw_topCanvasBinding :: size_wh
  pw_paneCell_width :: css_length
  pw_paneCell_height :: css_length
  pw_startScrollingPos :: "start_scroll_position option"
  pw_isScrolling :: bool
  pw_clicked_listeners :: nat
  pw_prevPinchScale :: real
  pw_longTap :: bool
  pw_startTrackPoint :: "point option"
  pw_exitTrackingModeOnNextTry :: bool
  pw_initCrosshairPosition :: "point option"
  pw_scrollXAnimation :: "nat option"
  anims :: "kinetic_animation list"
  calls :: "call list"

text \<open>A handler ends normally or by an exception; what it changed before a throw stays.\<close>

datatype outcome = Done world | Thrown error world

definition andThen :: "outcome \<Rightarrow> (world \<Rightarrow> outcome) \<Rightarrow> outcome" where
  "andThen r k = (case r of Done w \<Rightarrow> k w | Thrown err w \<Rightarrow> Thrown err w)"

definition worldOf :: "outcome \<Rightarrow> world" where
  "worldOf r = (case r of Done w \<Rightarrow> w | Thrown err w \<Rightarrow> w)"

definition recordCall :: "call \<Rightarrow> world \<Rightarrow> world" where
  "recordCall c w = w\<lparr>calls := calls w @ [c]\<rparr>"

subsection \<open>Hit testing\<close>

text \<open>
  \<open>PaneWidget._hitTestPaneView\<close>: the loop over the pane views of one source. Asking a
  view for its renderer and asking a renderer for a hit are calls on collaborators.
\<close>

fun hitTestPaneView ::
  "pane_view list \<Rightarrow> coordinate \<Rightarrow> coordinate \<Rightarrow> world \<Rightarrow> hit_test_pane_view_result option \<times> world" where
  "hitTestPaneView [] x y w = (None, w)"
| "hitTestPaneView (paneView # rest) x y w =
     (let h = size_h (pw_size w); wd = size_w (pw_size w);
          w1 = recordCall (RendererOf (v_id paneView) h wd) w
      in case v_renderer paneView h wd of
           None \<Rightarrow> hitTestPaneView rest x y w1
         | Some renderer \<Rightarrow>
             (case r_hitTest renderer of
                None \<Rightarrow> hitTestPaneView rest x y w1
              | Some f \<Rightarrow>
                  (let w2 = recordCall (HitTestOf (v_id paneView) x y) w1
                   in case f x y of
                        None \<Rightarrow> hitTestPaneView rest x y w2
                      | Some result \<Rightarrow> (Some \<lparr>hv_view = paneView, hv_object = result\<rparr>, w2))))"

text \<open>The loop over the ordered sources in \<open>PaneWidget.hitTest\<close>.\<close>

fun hitTestSources ::
  "data_source list \<Rightarrow> coordinate \<Rightarrow> coordinate \<Rightarrow> world \<Rightarrow> hit_test_result option \<times> world" where
  "hitTestSources [] x y w = (None, w)"
| "hitTestSources (source # rest) x y w =
     (case hitTestPaneView (s_paneViews source) x y w of
        (None, w1) \<Rightarrow> hitTestSources rest x y w1
      | (Some sourceResult, w1) \<Rightarrow>
          (Some \<lparr>ht_source = source, ht_view = hv_view sourceResult,
                 ht_object = hv_object sourceResult\<rparr>, w1))"

definition hitTest :: "coordinate \<Rightarrow> coordinate \<Rightarrow> world \<Rightarrow> hit_test_result option \<times> world" where
  "hitTest x y w =
     (case pw_state w of
        None \<Rightarrow> (None, w)
      | Some state \<Rightarrow> hitTestSources (orderedSources state) x y w)"

subsection \<open>Size\<close>

text \<open>
  \<open>Size.equals\<close> (\<open>canvas-utils\<close>) is not among the sources; it is taken to compare
  both dimensions.
\<close>

definition size_equals :: "size_wh \<Rightarrow> size_wh \<Rightarrow> bool" where
  "size_equals a b = (size_w a = size_w b \<and> size_h a = size_h b)"

definition setSize :: "size_wh \<Rightarrow> world \<Rightarrow> outcome" where
  "setSize sz w =
     (if size_w sz < 0 \<or> size_h sz < 0 then Thrown (InvalidSize (size_w sz) (size_h sz)) w
      else if size_equals (pw_size w) sz then Done w
      else Done (w\<lparr>pw_size := sz,
                   pw_canvasBinding := \<lparr>size_w = size_w sz, size_h = size_h sz\<rparr>,
                   pw_topCanvasBinding := \<lparr>size_w = size_w sz, size_h = size_h sz\<rparr>,
                   pw_paneCell_width := Px (size_w sz),
                   pw_paneCell_height := Px (size_h sz)\<rparr>))"

subsection \<open>Private helpers of the controller\<close>

definition preventCrosshairMove :: "env \<Rightarrow> world \<Rightarrow> bool" where
  "preventCrosshairMove e w = (trackCrosshairOnlyAfterLongTap e \<and> pw_startTrackPoint w = None)"

definition preventScroll :: "env \<Rightarrow> world \<Rightarrow> bool" where
  "preventScroll e w =
     (trackCrosshairOnlyAfterLongTap e \<and> pw_longTap w \<or> pw_startTrackPoint w \<noteq> None)"

definition correctXCoord :: "world \<Rightarrow> coordinate \<Rightarrow> coordinate" where
  "correctXCoord w x = max 0 (min x (size_w (pw_size w) - 1))"

definition correctYCoord :: "world \<Rightarrow> coordinate \<Rightarrow> coordinate" where
  "correctYCoord w y = max 0 (min y (size_h (pw_size w) - 1))"

text \<open>
  \<open>_setCrosshairPosition\<close>: the arguments of the model call are evaluated first, the
  last of them \<open>ensureNotNull(this._state)\<close>, so a null pane throws before the call.
\<close>

definition setCrosshairPosition :: "coordinate \<Rightarrow> coordinate \<Rightarrow> world \<Rightarrow> outcome" where
  "setCrosshairPosition x y w =
     (case pw_state w of
        None \<Rightarrow> Thrown EnsureNotNull w
      | Some state \<Rightarrow>
          Done (recordCall (SetAndSaveCurrentPosition (correctXCoord w x) (correctYCoord w y)) w))"

definition clearCrosshairPosition :: "world \<Rightarrow> world" where
  "clearCrosshairPosition w = recordCall ClearCurrentPosition w"

definition tryExitTrackingMode :: "world \<Rightarrow> world" where
  "tryExitTrackingMode w =
     (if pw_exitTrackingModeOnNextTry w
      then clearCrosshairPosition (w\<lparr>pw_startTrackPoint := None\<rparr>)
      else w)"

definition startTrackingMode :: "env \<Rightarrow> point \<Rightarrow> point \<Rightarrow> world \<Rightarrow> outcome" where
  "startTrackingMode e startTrackPoint crossHairPosition w =
     andThen
       (setCrosshairPosition (pt_x crossHairPosition) (pt_y crossHairPosition)
          (w\<lparr>pw_startTrackPoint := Some startTrackPoint, pw_exitTrackingModeOnNextTry := False\<rparr>))
       (\<lambda>w1. Done (w1\<lparr>pw_initCrosshairPosition :=
                        Some \<lparr>pt_x = appliedX e (calls w1), pt_y = appliedY e (calls w1)\<rparr>\<rparr>))"

text \<open>\<open>_finishScroll\<close>: \<open>this.state()\<close> is \<open>ensureNotNull(this._state)\<close>.\<close>

definition finishScroll :: "world \<Rightarrow> outcome" where
  "finishScroll w =
     (case pw_state w of
        None \<Rightarrow> Thrown EnsureNotNull w
      | Some state \<Rightarrow>
          Done ((recordCall EndScrollTime (recordCall EndScrollPrice w))
                  \<lparr>pw_startScrollingPos := None, pw_isScrolling := False\<rparr>))"

text \<open>An animation object is read and written through its address in the store.\<close>

definition animAt :: "world \<Rightarrow> nat \<Rightarrow> kinetic_animation" where
  "animAt w a = anims w ! a"

definition updateAnim :: "nat \<Rightarrow> (kinetic_animation \<Rightarrow> kinetic_animation) \<Rightarrow> world \<Rightarrow> world" where
  "updateAnim a f w = w\<lparr>anims := (anims w)[a := f (anims w ! a)]\<rparr>"

definition terminateKineticAnimation :: "env \<Rightarrow> real \<Rightarrow> world \<Rightarrow> outcome" where
  "terminateKineticAnimation e now w =
     (let xAnimationFinished =
            (case pw_scrollXAnimation w of
               None \<Rightarrow> True
             | Some a \<Rightarrow> finished e (animAt w a) now)
      in andThen
           (if pw_scrollXAnimation w \<noteq> None \<and> \<not> xAnimationFinished then finishScroll w
            else Done w)
           (\<lambda>w1. case pw_scrollXAnimation w1 of
                    None \<Rightarrow> Done w1
                  | Some a \<Rightarrow> Done ((updateAnim a terminate w1)\<lparr>pw_scrollXAnimation := None\<rparr>)))"

text \<open>
  The callback \<open>animationFn\<close> of \<open>_endScroll\<close>. It closes over the animation object
  that was current at mouse-up, here its address \<open>a\<close>; \<open>now\<close> is the time the tick
  reads. Scheduling the next tick is a call on the frame scheduler.
\<close>

definition animationFn :: "env \<Rightarrow> nat \<Rightarrow> real \<Rightarrow> world \<Rightarrow> outcome" where
  "animationFn e a now w =
     (if terminated (animAt w a) then Done w
      else
        (let xAnimationFinished0 = finished e (animAt w a) now;
             (xAnimationFinished, w2) =
               (if \<not> terminated (animAt w a) then
                  (let prevRightOffset = rightOffset e (calls w);
                       w1 = recordCall (ScrollTimeTo (getPosition e (animAt w a) now)) w
                   in if prevRightOffset = rightOffset e (calls w1)
                      then (True, w1\<lparr>pw_scrollXAnimation := None\<rparr>)
                      else (xAnimationFinished0, w1))
                else (xAnimationFinished0, w))
         in if xAnimationFinished then finishScroll w2
            else Done (recordCall (RequestAnimationFrame a) w2)))"

definition endScroll :: "env \<Rightarrow> real \<Rightarrow> touch_mouse_event \<Rightarrow> world \<Rightarrow> outcome" where
  "endScroll e now event w =
     (if \<not> pw_isScrolling w then Done w
      else
        (let w1 = (case pw_scrollXAnimation w of
                     None \<Rightarrow> w
                   | Some a \<Rightarrow> updateAnim a (start (localX event) now) w)
         in case pw_scrollXAnimation w1 of
              None \<Rightarrow> finishScroll w1
            | Some a \<Rightarrow>
                if finished e (animAt w1 a) now then finishScroll w1
                else Done (recordCall (RequestAnimationFrame a) w1)))"

subsection \<open>The event handlers\<close>

text \<open>
  Each handler takes the environment, the event and the controller's world; the handlers
  that read \<open>performance.now()\<close> take the time it returns.
\<close>

definition mouseEnterEvent :: "env \<Rightarrow> touch_mouse_event \<Rightarrow> world \<Rightarrow> outcome" where
  "mouseEnterEvent e event w =
     (if pw_state w = None then Done w
      else if \<not> mobileTouch e then setCrosshairPosition (localX event) (localY event) w
      else Done w)"

text \<open>
  The focus and selection part of \<open>mouseDownEvent\<close>: \<open>document.activeElement\<close> can be
  null, and \<open>ensureNotNull\<close> then throws.
\<close>

definition clearFocusOrSelection :: "env \<Rightarrow> world \<Rightarrow> outcome" where
  "clearFocusOrSelection e w =
     (if activeElement e \<noteq> ActiveBody \<and> activeElement e \<noteq> ActiveDocumentElement then
        (if activeElement e = ActiveNull then Thrown EnsureNotNull w
         else Done (recordCall BlurActiveElement w))
      else if hasSelection e then Done (recordCall RemoveAllRanges w)
      else Done w)"

text \<open>The last part of \<open>mouseDownEvent\<close>, from the emptiness check of the scales on.\<close>

definition mouseDownCrosshair :: "env \<Rightarrow> touch_mouse_event \<Rightarrow> world \<Rightarrow> outcome" where
  "mouseDownCrosshair e event w =
     (if priceScaleIsEmpty e (calls w) \<or> timeScaleIsEmpty e (calls w) then Done w
      else
        (let w1 = (if pw_startTrackPoint w \<noteq> None
                   then w\<lparr>pw_initCrosshairPosition :=
                             Some \<lparr>pt_x = appliedX e (calls w), pt_y = appliedY e (calls w)\<rparr>,
                           pw_startTrackPoint :=
                             Some \<lparr>pt_x = localX event, pt_y = localY event\<rparr>\<rparr>
                   else w)
         in if \<not> mobileTouch e
            then setCrosshairPosition (localX event) (localY event) w1
            else Done w1))"

definition mouseDownEvent :: "env \<Rightarrow> real \<Rightarrow> touch_mouse_event \<Rightarrow> world \<Rightarrow> outcome" where
  "mouseDownEvent e now event w =
     (let w0 = w\<lparr>pw_longTap := False,
                  pw_exitTrackingModeOnNextTry := (pw_startTrackPoint w \<noteq> None)\<rparr>
      in if pw_state w0 = None then Done w0
         else
           andThen (terminateKineticAnimation e now w0) (\<lambda>w1.
           andThen (clearFocusOrSelection e w1) (\<lambda>w2.
             mouseDownCrosshair e event w2)))"

text \<open>
  The hover part of \<open>mouseMoveEvent\<close>: the hit test, the hovered source given to the
  model, and the view's move handler.
\<close>

definition updateHover :: "coordinate \<Rightarrow> coordinate \<Rightarrow> world \<Rightarrow> outcome" where
  "updateHover x y w =
     (case hitTest x y w of
        (None, w1) \<Rightarrow> Done (recordCall (SetHoveredSource None) w1)
      | (Some ht, w1) \<Rightarrow>
          (let w2 = recordCall (SetHoveredSource (Some (s_id (ht_source ht), ht_object ht))) w1
           in if v_moveHandler (ht_view ht)
              then Done (recordCall (MoveHandler (v_id (ht_view ht)) x y) w2)
              else Done w2))"

definition mouseMoveEvent :: "env \<Rightarrow> touch_mouse_event \<Rightarrow> world \<Rightarrow> outcome" where
  "mouseMoveEvent e event w =
     (if pw_state w = None then Done w
      else
        (let x = localX event; y = localY event;
             w1 = (if preventCrosshairMove e w then clearCrosshairPosition w else w)
         in if \<not> mobileTouch e then
              andThen (setCrosshairPosition x y w1) (\<lambda>w2. updateHover x y w2)
            else Done w1))"

definition mouseClickEvent :: "env \<Rightarrow> touch_mouse_event \<Rightarrow> world \<Rightarrow> outcome" where
  "mouseClickEvent e event w =
     (if pw_state w = None then Done w
      else
        (let x = localX event; y = localY event;
             w2 = (case hitTest x y w of
                     (None, w1) \<Rightarrow> w1
                   | (Some ht, w1) \<Rightarrow>
                       if v_clickHandler (ht_view ht)
                       then recordCall (ClickHandler (v_id (ht_view ht)) x y) w1
                       else w1);
             w3 = (if pw_clicked_listeners w2 > 0
                   then recordCall (ClickedFire (appliedIndex e (calls w2)) x y) w2
                   else w2)
         in Done (tryExitTrackingMode w3)))"

text \<open>The crosshair part of \<open>pressedMouseMoveEvent\<close> (its first \<open>if\<close>).\<close>

definition pressedMoveCrosshair :: "env \<Rightarrow> touch_mouse_event \<Rightarrow> world \<Rightarrow> outcome" where
  "pressedMoveCrosshair e event w =
     (let x = localX event; y = localY event
      in case pw_startTrackPoint w of
           Some startTrackPoint \<Rightarrow>
             (let w1 = w\<lparr>pw_exitTrackingModeOnNextTry := False\<rparr>
              in case pw_initCrosshairPosition w1 of
                   None \<Rightarrow> Thrown EnsureNotNull w1
                 | Some origPoint \<Rightarrow>
                     (let newX = pt_x origPoint + (x - pt_x startTrackPoint);
                          newY = pt_y origPoint + (y - pt_y startTrackPoint)
                      in setCrosshairPosition newX newY w1))
         | None \<Rightarrow>
             if \<not> preventCrosshairMove e w then setCrosshairPosition x y w else Done w)"

text \<open>
  The scroll part of \<open>pressedMouseMoveEvent\<close>, after the options have let it pass, in
  the four steps of the source: sample the start position, feed the animation tracker,
  begin the scroll on the first movement away from the start, continue the scroll.
\<close>

definition sampleScrollStart :: "env \<Rightarrow> real \<Rightarrow> touch_mouse_event \<Rightarrow> world \<Rightarrow> world" where
  "sampleScrollStart e now event w =
     (if pw_startScrollingPos w = None \<and> \<not> preventScroll e w
      then w\<lparr>pw_startScrollingPos :=
               Some \<lparr>ssp_x = clientX event, ssp_y = clientY event, ssp_timestamp = now,
                     ssp_localX = localX event, ssp_localY = localY event\<rparr>\<rparr>
      else w)"

definition trackScrollPosition :: "real \<Rightarrow> touch_mouse_event \<Rightarrow> world \<Rightarrow> world" where
  "trackScrollPosition now event w =
     (case pw_scrollXAnimation w of
        None \<Rightarrow> w
      | Some a \<Rightarrow> updateAnim a (addPosition (localX event) now) w)"

definition beginScroll :: "env \<Rightarrow> real \<Rightarrow> touch_mouse_event \<Rightarrow> world \<Rightarrow> world" where
  "beginScroll e now event w =
     (case pw_startScrollingPos w of
        None \<Rightarrow> w
      | Some sp \<Rightarrow>
          if \<not> pw_isScrolling w \<and> (ssp_x sp \<noteq> clientX event \<or> ssp_y sp \<noteq> clientY event)
          then
            (let w1 = (if pw_scrollXAnimation w = None \<and>
                          (ev_type event = Touch \<and> kinetic_touch (kineticScroll (options e)) \<or>
                           ev_type event = Mouse \<and> kinetic_mouse (kineticScroll (options e)))
                       then w\<lparr>pw_scrollXAnimation := Some (length (anims w)),
                               anims := anims w @
                                 [addPosition (localX event) now
                                   (addPosition (ssp_localX sp) (ssp_timestamp sp)
                                     (newKineticAnimation MinScrollSpeed MaxScrollSpeed
                                        DumpingCoeff ScrollMinMove))]\<rparr>
                       else w);
                 w2 = (if \<not> priceScaleIsEmpty e (calls w1)
                       then recordCall (StartScrollPrice (localY event)) w1
                       else w1);
                 w3 = recordCall (StartScrollTime (localX event)) w2
             in w3\<lparr>pw_isScrolling := True\<rparr>)
          else w)"

definition continueScroll :: "env \<Rightarrow> touch_mouse_event \<Rightarrow> world \<Rightarrow> world" where
  "continueScroll e event w =
     (if pw_isScrolling w then
        (let w1 = (if \<not> priceScaleIsEmpty e (calls w)
                   then recordCall (ScrollPriceTo (localY event)) w
                   else w)
         in recordCall (ScrollTimeTo (localX event)) w1)
      else w)"

definition pressedMoveScroll :: "env \<Rightarrow> real \<Rightarrow> touch_mouse_event \<Rightarrow> world \<Rightarrow> world" where
  "pressedMoveScroll e now event w =
     continueScroll e event
       (beginScroll e now event
         (trackScrollPosition now event
           (sampleScrollStart e now event w)))"

text \<open>
  The two early returns of \<open>pressedMouseMoveEvent\<close> after the crosshair part (an empty
  time scale, drag-scroll disabled for the input type), then the scroll part.
\<close>

definition pressedMoveGate :: "env \<Rightarrow> real \<Rightarrow> touch_mouse_event \<Rightarrow> world \<Rightarrow> outcome" where
  "pressedMoveGate e now event w =
     (if timeScaleIsEmpty e (calls w) then Done w
      else
        (let scrollOptions = handleScroll (options e)
         in if (\<not> pressedMouseMove scrollOptions \<or> ev_type event = Touch) \<and>
               (\<not> horzTouchDrag scrollOptions \<and> \<not> vertTouchDrag scrollOptions \<or>
                ev_type event = Mouse)
            then Done w
            else Done (pressedMoveScroll e now event w)))"

definition pressedMouseMoveEvent :: "env \<Rightarrow> real \<Rightarrow> touch_mouse_event \<Rightarrow> world \<Rightarrow> outcome" where
  "pressedMouseMoveEvent e now event w =
     (if pw_state w = None then Done w
      else andThen (pressedMoveCrosshair e event w) (\<lambda>w1. pressedMoveGate e now event w1))"

definition mouseUpEvent :: "env \<Rightarrow> real \<Rightarrow> touch_mouse_event \<Rightarrow> world \<Rightarrow> outcome" where
  "mouseUpEvent e now event w =
     (if pw_state w = None then Done w
      else endScroll e now event (w\<lparr>pw_longTap := False\<rparr>))"

definition longTapEvent :: "env \<Rightarrow> touch_mouse_event \<Rightarrow> world \<Rightarrow> outcome" where
  "longTapEvent e event w =
     (let w1 = w\<lparr>pw_longTap := True\<rparr>
      in if pw_startTrackPoint w1 = None \<and> trackCrosshairOnlyAfterLongTap e then
           (let point = \<lparr>pt_x = localX event, pt_y = localY event\<rparr>
            in startTrackingMode e point point w1)
         else Done w1)"

definition mouseLeaveEvent :: "env \<Rightarrow> touch_mouse_event \<Rightarrow> world \<Rightarrow> outcome" where
  "mouseLeaveEvent e event w =
     (if pw_state w = None then Done w
      else
        (let w1 = recordCall (SetHoveredSource None) w
         in if \<not> isMobile e then Done (clearCrosshairPosition w1) else Done w1))"

definition pinchStartEvent :: "env \<Rightarrow> real \<Rightarrow> world \<Rightarrow> outcome" where
  "pinchStartEvent e now w = terminateKineticAnimation e now (w\<lparr>pw_prevPinchScale := 1\<rparr>)"

definition pinchEvent :: "env \<Rightarrow> point \<Rightarrow> real \<Rightarrow> world \<Rightarrow> outcome" where
  "pinchEvent e middlePoint scale w =
     (if \<not> handleScale_pinch (options e) then Done w
      else
        (let zoomScale = (scale - pw_prevPinchScale w) * 5
         in Done (recordCall (ZoomTime (pt_x middlePoint) zoomScale)
                    (w\<lparr>pw_prevPinchScale := scale\<rparr>))))"

text \<open>The eight interaction handlers of the event contract, under one name.\<close>

datatype handler =
  Enter | Down | Move | PressedMove | Click | Up | LongTap | Leave

fun handle :: "handler \<Rightarrow> env \<Rightarrow> real \<Rightarrow> touch_mouse_event \<Rightarrow> world \<Rightarrow> outcome" where
  "handle Enter e now event w = mouseEnterEvent e event w"
| "handle Down e now event w = mouseDownEvent e now event w"
| "handle Move e now event w = mouseMoveEvent e event w"
| "handle PressedMove e now event w = pressedMouseMoveEvent e now event w"
| "handle Click e now event w = mouseClickEvent e event w"
| "handle Up e now event w = mouseUpEvent e now event w"
| "handle LongTap e now event w = longTapEvent e event w"
| "handle Leave e now event w = mouseLeaveEvent e event w"

subsection \<open>Further definitions used by the statements\<close>

fun isGradientCall :: "ctx_cmd \<Rightarrow> bool" where
  "isGradientCall (CreateLinearGradient a b c d) = True"
| "isGradientCall (AddColorStop a b) = True"
| "isGradientCall c = False"

text \<open>The controller as its constructor leaves it, for a pane \<open>state\<close>.\<close>

definition newPaneWidget :: "pane \<Rightarrow> world" where
  "newPaneWidget state =
     \<lparr>pw_state = Some state,
      pw_size = \<lparr>size_w = 0, size_h = 0\<rparr>,
      pw_canvasBinding = \<lparr>size_w = 16, size_h = 16\<rparr>,
      pw_topCanvasBinding = \<lparr>size_w = 16, size_h = 16\<rparr>,
      pw_paneCell_width = Unset,
      pw_paneCell_height = Unset,
      pw_startScrollingPos = None,
      pw_isScrolling = False,
      pw_clicked_listeners = 0,
      pw_prevPinchScale = 0,
      pw_longTap = False,
      pw_startTrackPoint = None,
      pw_exitTrackingModeOnNextTry = False,
      pw_initCrosshairPosition = None,
      pw_scrollXAnimation = None,
      anims = [],
      calls = []\<rparr>"

text \<open>
  Hit testing as the spec words it. A view claims a point when its renderer for the
  pane's size exists, has a hit test, and the hit test returns an object. The first
  claim among the (source, view) pairs in order wins; the views asked are those up to
  and including the first that claims.
\<close>

definition claimOf :: "real \<Rightarrow> real \<Rightarrow> coordinate \<Rightarrow> coordinate \<Rightarrow> pane_view \<Rightarrow> hovered_object option" where
  "claimOf h wd x y v =
     (case v_renderer v h wd of
        None \<Rightarrow> None
      | Some r \<Rightarrow> (case r_hitTest r of None \<Rightarrow> None | Some f \<Rightarrow> f x y))"

definition viewQueries :: "real \<Rightarrow> real \<Rightarrow> coordinate \<Rightarrow> coordinate \<Rightarrow> pane_view \<Rightarrow> call list" where
  "viewQueries h wd x y v =
     RendererOf (v_id v) h wd #
     (case v_renderer v h wd of
        None \<Rightarrow> []
      | Some r \<Rightarrow> (case r_hitTest r of None \<Rightarrow> [] | Some f \<Rightarrow> [HitTestOf (v_id v) x y]))"

definition sourceViewPairs :: "data_source list \<Rightarrow> (data_source \<times> pane_view) list" where
  "sourceViewPairs srcs = concat (map (\<lambda>s. map (Pair s) (s_paneViews s)) srcs)"

definition claimAt :: "world \<Rightarrow> coordinate \<Rightarrow> coordinate \<Rightarrow> pane_view \<Rightarrow> hovered_object option" where
  "claimAt w x y = claimOf (size_h (pw_size w)) (size_w (pw_size w)) x y"

definition queriesAt :: "world \<Rightarrow> coordinate \<Rightarrow> coordinate \<Rightarrow> pane_view \<Rightarrow> call list" where
  "queriesAt w x y = viewQueries (size_h (pw_size w)) (size_w (pw_size w)) x y"

fun firstClaim ::
  "(pane_view \<Rightarrow> hovered_object option) \<Rightarrow> (data_source \<times> pane_view) list \<Rightarrow> hit_test_result option" where
  "firstClaim c [] = None"
| "firstClaim c ((s, v) # rest) =
     (case c v of
        Some obj \<Rightarrow> Some \<lparr>ht_source = s, ht_view = v, ht_object = obj\<rparr>
      | None \<Rightarrow> firstClaim c rest)"

fun askedViews ::
  "(pane_view \<Rightarrow> hovered_object option) \<Rightarrow> (data_source \<times> pane_view) list \<Rightarrow> pane_view list" where
  "askedViews c [] = []"
| "askedViews c ((s, v) # rest) =
     v # (case c v of Some obj \<Rightarrow> [] | None \<Rightarrow> askedViews c rest)"

text \<open>
  The calls a handler added to the log, and classes of calls: the calls that move the
  viewport or schedule a frame, the calls that set or clear the crosshair, and the
  crosshair positions within the pane (\<open>inPaneCall\<close>: within \<open>[0, w - 1]\<close> and
  \<open>[0, h - 1]\<close>; \<open>clampedCall\<close>: within \<open>[0, max 0 (w - 1)]\<close> and
  \<open>[0, max 0 (h - 1)]\<close>).
\<close>

definition newCalls :: "world \<Rightarrow> world \<Rightarrow> call list" where
  "newCalls w w' = drop (length (calls w)) (calls w')"

fun isViewportCall :: "call \<Rightarrow> bool" where
  "isViewportCall (StartScrollPrice y) = True"
| "isViewportCall (ScrollPriceTo y) = True"
| "isViewportCall EndScrollPrice = True"
| "isViewportCall (StartScrollTime x) = True"
| "isViewportCall (ScrollTimeTo x) = True"
| "isViewportCall EndScrollTime = True"
| "isViewportCall (ZoomTime x s) = True"
| "isViewportCall (RequestAnimationFrame a) = True"
| "isViewportCall c = False"


fun inPaneCall :: "size_wh \<Rightarrow> call \<Rightarrow> bool" where
  "inPaneCall sz (SetAndSaveCurrentPosition x y) =
     (0 \<le> x \<and> x \<le> size_w sz - 1 \<and> 0 \<le> y \<and> y \<le> size_h sz - 1)"
| "inPaneCall sz c = True"

fun clampedCall :: "size_wh \<Rightarrow> call \<Rightarrow> bool" where
  "clampedCall sz (SetAndSaveCurrentPosition x y) =
     (0 \<le> x \<and> x \<le> max 0 (size_w sz - 1) \<and> 0 \<le> y \<and> y \<le> max 0 (size_h sz - 1))"
| "clampedCall sz c = True"

text \<open>
  \<open>appends P w w'\<close>: from \<open>w\<close> to \<open>w'\<close> the size is kept and the log of calls has
  only grown, by calls that satisfy \<open>P\<close>.
\<close>

definition appends :: "(call \<Rightarrow> bool) \<Rightarrow> world \<Rightarrow> world \<Rightarrow> bool" where
  "appends P w w' =
     (pw_size w' = pw_size w \<and> take (length (calls w)) (calls w') = calls w
      \<and> list_all P (newCalls w w'))"

text \<open>Concrete inputs on which the statements below are run.\<close>

definition exampleArea :: pane_renderer_area_data where
  "exampleArea =
     \<lparr>items = [\<lparr>item_x = 0, item_y = 10\<rparr>, \<lparr>item_x = 5, item_y = 20\<rparr>,
               \<lparr>item_x = 10, item_y = 15\<rparr>],
      lineType = Simple, lineColor = ''red'', lineWidth = 2, lineStyle = 0,
      topColor = ''a'', topMiddleColor = ''b'', bottomMiddleColor = ''c'', bottomColor = ''d'',
      bottom = 30, barWidth = 6,
      visibleRange = Some \<lparr>range_from = 0, range_to = 3\<rparr>\<rparr>"

definition examplePoint :: pane_renderer_area_data where
  "examplePoint = exampleArea\<lparr>items := [\<lparr>item_x = 7, item_y = 3\<rparr>]\<rparr>"

definition twoItemArea :: pane_renderer_area_data where
  "twoItemArea =
     exampleArea\<lparr>items := [\<lparr>item_x = 0, item_y = 10\<rparr>, \<lparr>item_x = 5, item_y = 20\<rparr>],
                 visibleRange := Some \<lparr>range_from = 0, range_to = 1\<rparr>\<rparr>"

definition exampleEnv :: env where
  "exampleEnv =
     \<lparr>isMobile = False, mobileTouch = False,
      options = \<lparr>handleScroll = \<lparr>pressedMouseMove = False, horzTouchDrag = True,
                                 vertTouchDrag = True\<rparr>,
                 kineticScroll = \<lparr>kinetic_touch = True, kinetic_mouse = True\<rparr>,
                 handleScale_pinch = True\<rparr>,
      activeElement = ActiveBody, hasSelection = False,
      timeScaleIsEmpty = (\<lambda>cs. False), priceScaleIsEmpty = (\<lambda>cs. False),
      appliedX = (\<lambda>cs. 50), appliedY = (\<lambda>cs. 50), appliedIndex = (\<lambda>cs. None),
      rightOffset = (\<lambda>cs. real (length cs)),
      finished = (\<lambda>k t. False), getPosition = (\<lambda>k t. t)\<rparr>"

definition mobileEnv :: env where
  "mobileEnv = exampleEnv\<lparr>isMobile := True, mobileTouch := True\<rparr>"

definition exampleEvent :: touch_mouse_event where
  "exampleEvent = \<lparr>clientX = 190, clientY = 110, localX = 90, localY = 10, ev_type = Mouse\<rparr>"

definition examplePane :: pane where
  "examplePane = \<lparr>orderedSources = []\<rparr>"

definition exampleWorld :: world where
  "exampleWorld = (newPaneWidget examplePane)
     \<lparr>pw_size := \<lparr>size_w = 100, size_h = 100\<rparr>,
      pw_canvasBinding := \<lparr>size_w = 100, size_h = 100\<rparr>,
      pw_topCanvasBinding := \<lparr>size_w = 100, size_h = 100\<rparr>,
      pw_paneCell_width := Px 100, pw_paneCell_height := Px 100\<rparr>"

definition destroyedWorld :: world where
  "destroyedWorld = exampleWorld\<lparr>pw_state := None\<rparr>"

definition scrollingWorld :: world where
  "scrollingWorld = exampleWorld
     \<lparr>pw_isScrolling := True, pw_scrollXAnimation := Some 0,
      anims := [newKineticAnimation MinScrollSpeed MaxScrollSpeed DumpingCoeff ScrollMinMove]\<rparr>"


definition viewA1 :: pane_view where
  "viewA1 = \<lparr>v_id = 1, v_renderer = (\<lambda>h w. None), v_moveHandler = False, v_clickHandler = False\<rparr>"

definition viewA2 :: pane_view where
  "viewA2 = \<lparr>v_id = 2, v_renderer = (\<lambda>h w. Some \<lparr>r_hitTest = None\<rparr>),
             v_moveHandler = False, v_clickHandler = False\<rparr>"

definition viewA3 :: pane_view where
  "viewA3 =
     \<lparr>v_id = 3,
      v_renderer = (\<lambda>h w. Some \<lparr>r_hitTest =
                      Some (\<lambda>x y. if x \<le> 10 \<and> y \<le> 10 then Some 7 else None)\<rparr>),
      v_moveHandler = True, v_clickHandler = False\<rparr>"

definition viewB1 :: pane_view where
  "viewB1 = \<lparr>v_id = 4,
             v_renderer = (\<lambda>h w. Some \<lparr>r_hitTest = Some (\<lambda>x y. Some 9)\<rparr>),
             v_moveHandler = False, v_clickHandler = True\<rparr>"

definition sourceA :: data_source where
  "sourceA = \<lparr>s_id = 1, s_paneViews = [viewA1, viewA2, viewA3]\<rparr>"

definition sourceB :: data_source where
  "sourceB = \<lparr>s_id = 2, s_paneViews = [viewB1]\<rparr>"

definition overlapPane :: pane where
  "overlapPane = \<lparr>orderedSources = [sourceA, sourceB]\<rparr>"

definition overlapWorld :: world where
  "overlapWorld = exampleWorld\<lparr>pw_state := Some overlapPane\<rparr>"

section \<open>Properties of the area fill renderer\<close>

lemma with_item_in [simp]: "i < length its \<Longrightarrow> with_item its i k = k (its ! i)"
  by (simp add: with_item_def)

lemma walkSteps_in_range:
  "\<forall>i \<in> set ixs. i < length its \<Longrightarrow>
   walkSteps its lt ixs = emit (map (\<lambda>i. WalkTo lt (item_x (its ! i)) (item_y (its ! i))) ixs)"
  by (induction ixs) (simp_all add: emit_def then_draw_def)

lemma walkLine_in_range:
  "range_to vr \<le> length its \<Longrightarrow>
   walkLine its lt vr f =
     emit (map (\<lambda>i. WalkTo lt (item_x (its ! i)) (item_y (its ! i))) [Suc f ..< range_to vr])"
  unfolding walkLine_def by (rule walkSteps_in_range) simp

lemma advancedFrom_in_range:
  "2 \<le> length its \<Longrightarrow> range_from vr < length its \<Longrightarrow> advancedFrom vr < length its"
  by (simp add: advancedFrom_def)

lemma multiPointPath_in_range:
  assumes "2 \<le> length (items d)" "f < length (items d)" "range_to vr \<le> length (items d)"
  shows "multiPointPath d vr f =
     emit ([MoveTo (item_x (items d ! f)) (item_y (items d ! 0)),
            LineTo (item_x (items d ! f)) (item_y (items d ! f))]
           @ map (\<lambda>i. WalkTo (lineType d) (item_x (items d ! i)) (item_y (items d ! i)))
               [Suc f ..< range_to vr]
           @ (if f < range_to vr
              then [LineTo (item_x (items d ! (range_to vr - 1))) (item_y (items d ! 0)),
                    LineTo (item_x (items d ! f)) (item_y (items d ! 0))]
              else []))"
proof -
  have 0: "0 < length (items d)" using assms(1) by linarith
  have l: "f < range_to vr \<Longrightarrow> range_to vr - 1 < length (items d)" using assms(3) by simp
  show ?thesis
    unfolding multiPointPath_def
    using 0 l
    by (simp add: assms(2) walkLine_in_range [OF assms(3)] emit_def then_draw_def
        del: length_greater_0_conv)
qed

lemma vertices_append: "vertices (a @ b) = vertices a @ vertices b"
  by (induction a rule: vertices.induct) simp_all

lemma vertices_walk:
  "vertices (map (\<lambda>i. WalkTo lt (item_x (its ! i)) (item_y (its ! i))) ixs)
     = map (\<lambda>i. itemPoint (its ! i)) ixs"
  by (induction ixs) (simp_all add: itemPoint_def)

lemma foldl_pathStep_keeps_start:
  "\<forall>c \<in> set cs. c \<noteq> BeginPath \<and> (\<forall>a b. c \<noteq> MoveTo a b) \<Longrightarrow>
   fst (foldl pathStep (Some st, cur) cs) = Some st"
proof (induction cs arbitrary: cur)
  case Nil
  then show ?case by simp
next
  case (Cons c cs)
  then obtain cur' where "pathStep (Some st, cur) c = (Some st, cur')"
    by (cases c) auto
  with Cons show ?case by simp
qed

lemma drawImpl_multi:
  assumes "2 \<le> length (items d)" "visibleRange d = Some vr"
    "range_from vr < length (items d)" "range_to vr \<le> length (items d)"
  shows "drawImpl (Some d) =
     emit (strokeSetup d @
           ([MoveTo (item_x (items d ! advancedFrom vr)) (item_y (items d ! 0)),
            LineTo (item_x (items d ! advancedFrom vr)) (item_y (items d ! advancedFrom vr))]
           @ map (\<lambda>i. WalkTo (lineType d) (item_x (items d ! i)) (item_y (items d ! i)))
               [Suc (advancedFrom vr) ..< range_to vr]
           @ (if advancedFrom vr < range_to vr
              then [LineTo (item_x (items d ! (range_to vr - 1))) (item_y (items d ! 0)),
                    LineTo (item_x (items d ! advancedFrom vr)) (item_y (items d ! 0))]
              else [])) @ [ClosePath] @
           [CreateLinearGradient 0 (item_y (items d ! 0) - bottom d / 3)
                                 0 (item_y (items d ! 0) + bottom d / 3),
            AddColorStop 0 (topColor d),
            AddColorStop 0.5 (topMiddleColor d),
            AddColorStop 0.5 (bottomMiddleColor d),
            AddColorStop 1 (bottomColor d),
            SetFillStyleGradient,
            Fill])"
proof -
  have f: "advancedFrom vr < length (items d)"
    using assms(1,3) by (rule advancedFrom_in_range)
  have n1: "length (items d) \<noteq> 1" "length (items d) \<noteq> 0" "0 < length (items d)"
    using assms(1) by linarith+
  show ?thesis
    unfolding drawImpl_def areaPath_def gradientFill_def
    using n1
    by (simp add: assms(2) multiPointPath_in_range [OF assms(1) f assms(4)] emit_def then_draw_def
        Let_def del: length_greater_0_conv)
qed

text \<open>
  C3, as amended. Take at least two items and a visible range \<open>[from, to)\<close> of the
  items (\<open>from\<close> is the index of an item, \<open>to\<close> is at most their number), and let
  \<open>f\<close> be \<open>from\<close>, advanced to 1 when \<open>from\<close> is 0. Then \<open>_drawImpl\<close> does
  not throw, and its path starts at the anchor \<open>(x[f], y[0])\<close> and, after
  \<open>closePath\<close>, ends there. When \<open>f < to\<close> the path goes from the anchor to the
  items \<open>f, f + 1, ..., to - 1\<close>, each once and in this order, then to the corner
  \<open>(x[to - 1], y[0])\<close> and back to the anchor; item 0 gives only the baseline. When
  \<open>to \<le> f\<close> the path goes from the anchor to item \<open>f\<close> alone. The walk from item
  \<open>f\<close> on is the routine modelled from the spec.
\<close>

theorem area_path_visits_advanced_range:
  assumes "2 \<le> length (items d)" and "visibleRange d = Some vr"
    and "f = (if range_from vr = 0 then 1 else range_from vr)"
    and "range_from vr < length (items d)" and "range_to vr \<le> length (items d)"
  shows "snd (drawImpl (Some d)) = None
       \<and> vertices (fst (drawImpl (Some d))) =
           (if f < range_to vr
            then \<lparr>pt_x = item_x (items d ! f), pt_y = item_y (items d ! 0)\<rparr>
                 # map (\<lambda>i. itemPoint (items d ! i)) [f ..< range_to vr]
                 @ [\<lparr>pt_x = item_x (items d ! (range_to vr - 1)), pt_y = item_y (items d ! 0)\<rparr>,
                    \<lparr>pt_x = item_x (items d ! f), pt_y = item_y (items d ! 0)\<rparr>]
            else [\<lparr>pt_x = item_x (items d ! f), pt_y = item_y (items d ! 0)\<rparr>,
                  itemPoint (items d ! f)])
       \<and> pathStart (fst (drawImpl (Some d))) =
           Some \<lparr>pt_x = item_x (items d ! f), pt_y = item_y (items d ! 0)\<rparr>
       \<and> pathEnd (fst (drawImpl (Some d))) = pathStart (fst (drawImpl (Some d)))"
proof -
  have f: "advancedFrom vr = f"
    using assms(3) by (simp add: advancedFrom_def)
  note eq = drawImpl_multi [OF assms(1,2,4,5), unfolded f]
  let ?walk = "map (\<lambda>i. WalkTo (lineType d) (item_x (items d ! i)) (item_y (items d ! i)))
               [Suc f ..< range_to vr]"
  let ?mid = "LineTo (item_x (items d ! f)) (item_y (items d ! f)) # ?walk
           @ (if f < range_to vr
              then [LineTo (item_x (items d ! (range_to vr - 1))) (item_y (items d ! 0)),
                    LineTo (item_x (items d ! f)) (item_y (items d ! 0))]
              else [])"
  let ?anchor = "\<lparr>pt_x = item_x (items d ! f), pt_y = item_y (items d ! 0)\<rparr>"
  have 1: "snd (drawImpl (Some d)) = None"
    by (simp add: eq emit_def)
  have v: "vertices (fst (drawImpl (Some d))) =
           ?anchor # itemPoint (items d ! f) # map (\<lambda>i. itemPoint (items d ! i)) [Suc f ..< range_to vr]
           @ (if f < range_to vr
              then [\<lparr>pt_x = item_x (items d ! (range_to vr - 1)), pt_y = item_y (items d ! 0)\<rparr>,
                    ?anchor]
              else [])"
    by (simp add: eq emit_def strokeSetup_def vertices_append vertices_walk itemPoint_def)
  have 2: "vertices (fst (drawImpl (Some d))) =
           (if f < range_to vr
            then ?anchor # map (\<lambda>i. itemPoint (items d ! i)) [f ..< range_to vr]
                 @ [\<lparr>pt_x = item_x (items d ! (range_to vr - 1)), pt_y = item_y (items d ! 0)\<rparr>,
                    ?anchor]
            else [?anchor, itemPoint (items d ! f)])"
  proof (cases "f < range_to vr")
    case True
    then have "[f ..< range_to vr] = f # [Suc f ..< range_to vr]"
      by (rule upt_conv_Cons)
    with True show ?thesis by (simp add: v)
  next
    case False
    then show ?thesis by (simp add: v)
  qed
  have 3: "pathStart (fst (drawImpl (Some d))) = Some ?anchor"
    by (simp add: eq emit_def strokeSetup_def)
  have mid: "\<forall>c \<in> set ?mid. c \<noteq> BeginPath \<and> (\<forall>a b. c \<noteq> MoveTo a b)"
    by auto
  have "\<And>cur. fst (foldl pathStep (Some ?anchor, cur) ?mid) = Some ?anchor"
    using mid by (rule foldl_pathStep_keeps_start)
  then have 4: "pathEnd (fst (drawImpl (Some d))) = Some ?anchor"
    by (simp add: eq emit_def strokeSetup_def pathEnd_def)
  from 1 2 3 4 show ?thesis by simp
qed

theorem area_path_visits_advanced_range_witness:
  "vertices (fst (drawImpl (Some exampleArea))) =
     [\<lparr>pt_x = 5, pt_y = 10\<rparr>, \<lparr>pt_x = 5, pt_y = 20\<rparr>, \<lparr>pt_x = 10, pt_y = 15\<rparr>,
      \<lparr>pt_x = 10, pt_y = 10\<rparr>, \<lparr>pt_x = 5, pt_y = 10\<rparr>]
   \<and> pathEnd (fst (drawImpl (Some exampleArea))) = Some \<lparr>pt_x = 5, pt_y = 10\<rparr>
   \<and> vertices (fst (drawImpl (Some (exampleArea
          \<lparr>visibleRange := Some \<lparr>range_from = 2, range_to = 3\<rparr>\<rparr>)))) =
     [\<lparr>pt_x = 10, pt_y = 10\<rparr>, \<lparr>pt_x = 10, pt_y = 15\<rparr>, \<lparr>pt_x = 10, pt_y = 10\<rparr>,
      \<lparr>pt_x = 10, pt_y = 10\<rparr>]"
  using area_path_visits_advanced_range [of exampleArea "\<lparr>range_from = 0, range_to = 3\<rparr>" 1]
    area_path_visits_advanced_range
      [of "exampleArea\<lparr>visibleRange := Some \<lparr>range_from = 2, range_to = 3\<rparr>\<rparr>"
          "\<lparr>range_from = 2, range_to = 3\<rparr>" 2]
  by (simp add: exampleArea_def itemPoint_def numeral_3_eq_3)

text \<open>
  C3 as stated fails when the advanced start is not below \<open>to\<close>. For two items and the
  visible range \<open>[0, 1)\<close> the start is advanced to 1, and the path goes from the anchor
  to item 1: the one index reached is 1, which is neither in \<open>[0, 1)\<close> nor in the
  advanced range \<open>[1, 1)\<close>, which is empty.
\<close>

theorem area_path_range_counterexample:
  "length (items twoItemArea) = 2
   \<and> visibleRange twoItemArea = Some \<lparr>range_from = 0, range_to = 1\<rparr>
   \<and> vertices (fst (drawImpl (Some twoItemArea))) =
       [\<lparr>pt_x = 5, pt_y = 10\<rparr>, itemPoint (items twoItemArea ! 1)]
   \<and> (1::nat) \<notin> set [0 ..< 1]
   \<and> (1::nat) \<notin> set [1 ..< 1]"
  by (simp add: twoItemArea_def exampleArea_def drawImpl_def areaPath_def multiPointPath_def
      walkLine_def with_item_def advancedFrom_def gradientFill_def strokeSetup_def then_draw_def
      emit_def itemPoint_def Let_def)

text \<open>
  C8. For exactly one item \<open>p\<close> and a non-null visible range, the path is the slab
  \<open>moveTo(x - h, y)\<close>, \<open>lineTo(x - h, y)\<close>, \<open>lineTo(x + h, y)\<close>, \<open>lineTo(x + h, y)\<close>,
  \<open>closePath\<close> with \<open>h\<close> half the bar width: every vertex has the point's \<open>y\<close>, the
  extent in \<open>x\<close> is the bar width, and the middle is the point's \<open>x\<close>.
\<close>

theorem single_point_slab:
  assumes "items d = [p]" and "visibleRange d = Some vr"
  shows "areaPath d vr =
           emit [MoveTo (item_x p - barWidth d / 2) (item_y p),
                 LineTo (item_x p - barWidth d / 2) (item_y p),
                 LineTo (item_x p + barWidth d / 2) (item_y p),
                 LineTo (item_x p + barWidth d / 2) (item_y p),
                 ClosePath]
         \<and> vertices (fst (drawImpl (Some d))) =
             [\<lparr>pt_x = item_x p - barWidth d / 2, pt_y = item_y p\<rparr>,
              \<lparr>pt_x = item_x p - barWidth d / 2, pt_y = item_y p\<rparr>,
              \<lparr>pt_x = item_x p + barWidth d / 2, pt_y = item_y p\<rparr>,
              \<lparr>pt_x = item_x p + barWidth d / 2, pt_y = item_y p\<rparr>]
         \<and> snd (drawImpl (Some d)) = None
         \<and> (item_x p + barWidth d / 2) - (item_x p - barWidth d / 2) = barWidth d
         \<and> ((item_x p - barWidth d / 2) + (item_x p + barWidth d / 2)) / 2 = item_x p"
  using assms
  by (simp add: areaPath_def singlePointPath_def with_item_def drawImpl_def strokeSetup_def
      gradientFill_def emit_def then_draw_def Let_def)

theorem single_point_slab_witness:
  "vertices (fst (drawImpl (Some examplePoint))) =
     [\<lparr>pt_x = 4, pt_y = 3\<rparr>, \<lparr>pt_x = 4, pt_y = 3\<rparr>, \<lparr>pt_x = 10, pt_y = 3\<rparr>, \<lparr>pt_x = 10, pt_y = 3\<rparr>]
   \<and> snd (drawImpl (Some examplePoint)) = None"
  using single_point_slab [of examplePoint "\<lparr>item_x = 7, item_y = 3\<rparr>"
      "\<lparr>range_from = 0, range_to = 3\<rparr>"]
  by (simp add: examplePoint_def exampleArea_def)

lemma nograd_walkSteps: "filter isGradientCall (fst (walkSteps its lt ixs)) = []"
  by (induction ixs)
     (simp_all add: with_item_def then_draw_def emit_def throw_draw_def split: option.splits)

lemma nograd_areaPath: "filter isGradientCall (fst (areaPath d vr)) = []"
  using nograd_walkSteps [of "items d" "lineType d" "[Suc (advancedFrom vr) ..< range_to vr]"]
  by (simp add: areaPath_def singlePointPath_def multiPointPath_def walkLine_def with_item_def
      then_draw_def emit_def throw_draw_def Let_def split: option.splits)

text \<open>
  C9. With null data, no items or a null visible range, \<open>_drawImpl\<close> makes no call on
  the context and does not throw. Whenever it draws (there are items and a visible range,
  and it runs to its end), the gradient calls it makes are exactly
  \<open>createLinearGradient(0, y[0] - bottom/3, 0, y[0] + bottom/3)\<close> and the four colour
  stops at 0, 0.5, 0.5 and 1, in this order, and the fill is made.
\<close>

theorem gradient_and_noops:
  "drawImpl None = ([], None)
   \<and> (items d = [] \<longrightarrow> drawImpl (Some d) = ([], None))
   \<and> (visibleRange d = None \<longrightarrow> drawImpl (Some d) = ([], None))
   \<and> (items d \<noteq> [] \<and> visibleRange d \<noteq> None \<and> snd (drawImpl (Some d)) = None \<longrightarrow>
        filter isGradientCall (fst (drawImpl (Some d))) =
          [CreateLinearGradient 0 (item_y (items d ! 0) - bottom d / 3)
                                0 (item_y (items d ! 0) + bottom d / 3),
           AddColorStop 0 (topColor d),
           AddColorStop 0.5 (topMiddleColor d),
           AddColorStop 0.5 (bottomMiddleColor d),
           AddColorStop 1 (bottomColor d)]
        \<and> Fill \<in> set (fst (drawImpl (Some d))))"
proof -
  have a: "drawImpl None = ([], None)"
    by (simp add: drawImpl_def emit_def)
  have b: "items d = [] \<longrightarrow> drawImpl (Some d) = ([], None)"
    by (simp add: drawImpl_def emit_def)
  have c: "visibleRange d = None \<longrightarrow> drawImpl (Some d) = ([], None)"
    by (simp add: drawImpl_def emit_def)
  have d: "filter isGradientCall (fst (drawImpl (Some d))) =
          [CreateLinearGradient 0 (item_y (items d ! 0) - bottom d / 3)
                                0 (item_y (items d ! 0) + bottom d / 3),
           AddColorStop 0 (topColor d),
           AddColorStop 0.5 (topMiddleColor d),
           AddColorStop 0.5 (bottomMiddleColor d),
           AddColorStop 1 (bottomColor d)]
        \<and> Fill \<in> set (fst (drawImpl (Some d)))"
    if h: "items d \<noteq> []" "visibleRange d \<noteq> None" "snd (drawImpl (Some d)) = None"
  proof -
    from h(2) obtain vr where vr: "visibleRange d = Some vr" by auto
    from h(1) have n: "0 < length (items d)" by simp
    have ok: "snd (areaPath d vr) = None"
      using h(3) h(1) by (simp add: drawImpl_def vr then_draw_def emit_def split: option.splits)
    have eq: "fst (drawImpl (Some d)) = strokeSetup d @ fst (areaPath d vr) @ fst (gradientFill d)"
      using h(1) ok by (simp add: drawImpl_def vr then_draw_def emit_def)
    have g: "fst (gradientFill d) =
       [CreateLinearGradient 0 (item_y (items d ! 0) - bottom d / 3)
                             0 (item_y (items d ! 0) + bottom d / 3),
             AddColorStop 0 (topColor d),
             AddColorStop 0.5 (topMiddleColor d),
             AddColorStop 0.5 (bottomMiddleColor d),
             AddColorStop 1 (bottomColor d),
             SetFillStyleGradient,
             Fill]"
      using n by (simp add: gradientFill_def with_item_def emit_def del: length_greater_0_conv)
    show ?thesis
      by (simp add: eq g nograd_areaPath strokeSetup_def)
  qed
  from a b c d show ?thesis by blast
qed

theorem gradient_and_noops_witness:
  "filter isGradientCall (fst (drawImpl (Some exampleArea))) =
     [CreateLinearGradient 0 0 0 20, AddColorStop 0 ''a'', AddColorStop 0.5 ''b'',
      AddColorStop 0.5 ''c'', AddColorStop 1 ''d'']
   \<and> drawImpl (Some (exampleArea\<lparr>items := []\<rparr>)) = ([], None)
   \<and> drawImpl (Some (exampleArea\<lparr>visibleRange := None\<rparr>)) = ([], None)"
proof -
  have ok: "snd (drawImpl (Some exampleArea)) = None"
    using drawImpl_multi [of exampleArea "\<lparr>range_from = 0, range_to = 3\<rparr>"]
    by (simp add: exampleArea_def emit_def)
  show ?thesis
    using gradient_and_noops [of exampleArea] gradient_and_noops [of "exampleArea\<lparr>items := []\<rparr>"]
      gradient_and_noops [of "exampleArea\<lparr>visibleRange := None\<rparr>"] ok
    by (simp add: exampleArea_def)
qed

section \<open>Properties of the pane controller\<close>

text \<open>
  C4. \<open>setSize\<close> with a negative width or height throws at once, and the world at the
  throw is the world before the call: the stored size, both canvas bindings and the pane
  cell's style are untouched.
\<close>

theorem setSize_negative_throws:
  "size_w sz < 0 \<or> size_h sz < 0 \<Longrightarrow>
   setSize sz w = Thrown (InvalidSize (size_w sz) (size_h sz)) w"
  by (simp add: setSize_def)

theorem setSize_negative_throws_witness:
  "setSize \<lparr>size_w = - 1, size_h = 5\<rparr> (newPaneWidget \<lparr>orderedSources = []\<rparr>)
     = Thrown (InvalidSize (- 1) 5) (newPaneWidget \<lparr>orderedSources = []\<rparr>)"
  using setSize_negative_throws
    [of "\<lparr>size_w = - 1, size_h = 5\<rparr>" "newPaneWidget \<lparr>orderedSources = []\<rparr>"]
  by simp

subsection \<open>A destroyed pane\<close>

lemma handlers_noop_on_destroyed_pane:
  "pw_state w = None \<Longrightarrow> h \<noteq> Down \<Longrightarrow> h \<noteq> LongTap \<Longrightarrow> handle h e now event w = Done w"
  by (cases h)
     (simp_all add: mouseEnterEvent_def mouseMoveEvent_def pressedMouseMoveEvent_def
        mouseClickEvent_def mouseUpEvent_def mouseLeaveEvent_def)

lemma mouseDown_on_destroyed_pane:
  "pw_state w = None \<Longrightarrow>
   mouseDownEvent e now event w =
     Done (w\<lparr>pw_longTap := False, pw_exitTrackingModeOnNextTry := (pw_startTrackPoint w \<noteq> None)\<rparr>)"
  by (simp add: mouseDownEvent_def Let_def)

lemma longTap_on_destroyed_pane:
  "pw_state w = None \<Longrightarrow>
   longTapEvent e event w =
     (if pw_startTrackPoint w = None \<and> isMobile e
      then Thrown EnsureNotNull
             (w\<lparr>pw_longTap := True,
                pw_startTrackPoint := Some \<lparr>pt_x = localX event, pt_y = localY event\<rparr>,
                pw_exitTrackingModeOnNextTry := False\<rparr>)
      else Done (w\<lparr>pw_longTap := True\<rparr>))"
  by (simp add: longTapEvent_def startTrackingMode_def setCrosshairPosition_def andThen_def Let_def
      trackCrosshairOnlyAfterLongTap_def)

text \<open>
  C1. With a null pane, six of the eight handlers (enter, move, pressed-move, click, up,
  leave) return at once and change nothing (\<open>handlers_noop_on_destroyed_pane\<close>). The
  other two do not: \<open>mouseDownEvent\<close> writes two flags before its null check, and
  \<open>longTapEvent\<close> has no null check at all. On a touch device, with no track point, a
  long tap on a destroyed pane sets the long-tap flag and the track point and then throws
  from \<open>ensureNotNull(this._state)\<close>; elsewhere it sets the long-tap flag. The
  statement runs both handlers on a destroyed pane.
\<close>

theorem destroyed_pane_long_tap_throws:
  "pw_state destroyedWorld = None
   \<and> handle LongTap mobileEnv 0 exampleEvent destroyedWorld =
       Thrown EnsureNotNull
         (destroyedWorld\<lparr>pw_longTap := True,
                         pw_startTrackPoint := Some \<lparr>pt_x = 90, pt_y = 10\<rparr>\<rparr>)
   \<and> handle LongTap exampleEnv 0 exampleEvent destroyedWorld =
       Done (destroyedWorld\<lparr>pw_longTap := True\<rparr>)
   \<and> handle Down exampleEnv 0 exampleEvent (destroyedWorld\<lparr>pw_longTap := True\<rparr>) =
       Done destroyedWorld"
  by (simp add: longTapEvent_def startTrackingMode_def setCrosshairPosition_def andThen_def Let_def
      trackCrosshairOnlyAfterLongTap_def mouseDownEvent_def destroyedWorld_def mobileEnv_def
      exampleEnv_def exampleEvent_def exampleWorld_def newPaneWidget_def)

subsection \<open>Stale animation ticks\<close>

text \<open>
  C5. A tick of the kinetic-scroll animation whose animation object is terminated returns
  at its first statement: the world is unchanged (no call on the model, no field written,
  no frame requested) and nothing is thrown. The object the tick holds is the one
  \<open>_terminateKineticAnimation\<close> terminates: when that returns normally for the current
  animation at address \<open>a\<close>, the object at \<open>a\<close> is terminated and a later tick for
  \<open>a\<close> changes nothing.
\<close>

theorem stale_tick_after_terminate:
  "(terminated (animAt w a) \<longrightarrow> animationFn e a now w = Done w)
   \<and> (pw_scrollXAnimation w = Some a \<and> a < length (anims w)
        \<and> terminateKineticAnimation e t w = Done w'
      \<longrightarrow> terminated (animAt w' a) \<and> animationFn e a now w' = Done w')"
proof -
  have 1: "terminated (animAt w a) \<longrightarrow> animationFn e a now w = Done w" for w
    by (simp add: animationFn_def)
  have 2: "terminated (animAt w' a)"
    if h: "pw_scrollXAnimation w = Some a" "a < length (anims w)"
      "terminateKineticAnimation e t w = Done w'"
  proof -
    have "w' = (updateAnim a terminate w)\<lparr>pw_scrollXAnimation := None\<rparr>
        \<or> (\<exists>w1. finishScroll w = Done w1 \<and> w' = (updateAnim a terminate w1)\<lparr>pw_scrollXAnimation := None\<rparr>)"
      using h(1,3)
      by (auto simp add: terminateKineticAnimation_def andThen_def finishScroll_def Let_def recordCall_def
          split: if_splits option.splits outcome.splits)
    then show ?thesis
      using h(2)
      by (auto simp add: finishScroll_def recordCall_def animAt_def updateAnim_def terminated_def
          terminate_def split: option.splits)
  qed
  from 1 2 show ?thesis by blast
qed

theorem stale_tick_after_terminate_witness:
  "terminateKineticAnimation exampleEnv 5 scrollingWorld
     = Done (worldOf (terminateKineticAnimation exampleEnv 5 scrollingWorld))
   \<and> animationFn exampleEnv 0 6 (worldOf (terminateKineticAnimation exampleEnv 5 scrollingWorld))
     = Done (worldOf (terminateKineticAnimation exampleEnv 5 scrollingWorld))
   \<and> calls (worldOf (animationFn exampleEnv 0 6 scrollingWorld))
     = [ScrollTimeTo 6, RequestAnimationFrame 0]"
proof -
  have d: "terminateKineticAnimation exampleEnv 5 scrollingWorld
     = Done (worldOf (terminateKineticAnimation exampleEnv 5 scrollingWorld))"
    by (simp add: terminateKineticAnimation_def andThen_def finishScroll_def Let_def worldOf_def
        scrollingWorld_def exampleWorld_def newPaneWidget_def exampleEnv_def animAt_def
        recordCall_def updateAnim_def)
  have l: "pw_scrollXAnimation scrollingWorld = Some 0 \<and> 0 < length (anims scrollingWorld)"
    by (simp add: scrollingWorld_def)
  have t: "calls (worldOf (animationFn exampleEnv 0 6 scrollingWorld))
     = [ScrollTimeTo 6, RequestAnimationFrame 0]"
    by (simp add: animationFn_def scrollingWorld_def exampleWorld_def newPaneWidget_def exampleEnv_def
        animAt_def terminated_def newKineticAnimation_def recordCall_def worldOf_def Let_def)
  show ?thesis
    using stale_tick_after_terminate [of scrollingWorld 0 exampleEnv 6 5
        "worldOf (terminateKineticAnimation exampleEnv 5 scrollingWorld)"] d l t
    by simp
qed

subsection \<open>Drag-scroll disabled for the mouse\<close>

text \<open>
  C7. For an event of input type mouse with \<open>handleScroll.pressedMouseMove\<close> disabled,
  \<open>pressedMouseMoveEvent\<close> leaves the scroll start position, the scrolling flag, the
  current animation and the store of animations as they were; the only call it can add
  is one crosshair position; no scroll, zoom or frame call is added.
\<close>

theorem mouse_drag_disabled_no_scroll:
  assumes "ev_type event = Mouse" and "\<not> pressedMouseMove (handleScroll (options e))"
  shows "pw_startScrollingPos (worldOf (pressedMouseMoveEvent e now event w)) = pw_startScrollingPos w
       \<and> pw_isScrolling (worldOf (pressedMouseMoveEvent e now event w)) = pw_isScrolling w
       \<and> pw_scrollXAnimation (worldOf (pressedMouseMoveEvent e now event w)) = pw_scrollXAnimation w
       \<and> anims (worldOf (pressedMouseMoveEvent e now event w)) = anims w
       \<and> (calls (worldOf (pressedMouseMoveEvent e now event w)) = calls w
          \<or> (\<exists>x y. calls (worldOf (pressedMouseMoveEvent e now event w))
                      = calls w @ [SetAndSaveCurrentPosition x y]))
       \<and> filter isViewportCall (calls (worldOf (pressedMouseMoveEvent e now event w)))
           = filter isViewportCall (calls w)"
  using assms
  by (auto simp add: pressedMouseMoveEvent_def pressedMoveGate_def pressedMoveCrosshair_def setCrosshairPosition_def
      andThen_def worldOf_def recordCall_def Let_def split: option.splits)

theorem mouse_drag_disabled_no_scroll_witness:
  "calls (worldOf (pressedMouseMoveEvent exampleEnv 0 exampleEvent exampleWorld))
     = [SetAndSaveCurrentPosition 90 10]
   \<and> pw_isScrolling (worldOf (pressedMouseMoveEvent exampleEnv 0 exampleEvent exampleWorld)) = False
   \<and> pw_scrollXAnimation (worldOf (pressedMouseMoveEvent exampleEnv 0 exampleEvent exampleWorld)) = None"
  using mouse_drag_disabled_no_scroll [of exampleEvent exampleEnv 0 exampleWorld]
  by (simp add: pressedMouseMoveEvent_def pressedMoveGate_def pressedMoveCrosshair_def setCrosshairPosition_def
      pressedMoveScroll_def sampleScrollStart_def trackScrollPosition_def beginScroll_def
      continueScroll_def preventScroll_def preventCrosshairMove_def trackCrosshairOnlyAfterLongTap_def
      correctXCoord_def correctYCoord_def
      andThen_def worldOf_def recordCall_def Let_def exampleEnv_def exampleEvent_def exampleWorld_def
      newPaneWidget_def)

subsection \<open>Crosshair positions stay in the pane\<close>

lemma appends_iff:
  "appends P w w' \<longleftrightarrow> pw_size w' = pw_size w \<and> (\<exists>cs. calls w' = calls w @ cs \<and> list_all P cs)"
proof
  assume a: "appends P w w'"
  then have "calls w' = calls w @ newCalls w w'"
    unfolding appends_def newCalls_def by (metis append_take_drop_id)
  with a show "pw_size w' = pw_size w \<and> (\<exists>cs. calls w' = calls w @ cs \<and> list_all P cs)"
    unfolding appends_def by blast
next
  assume "pw_size w' = pw_size w \<and> (\<exists>cs. calls w' = calls w @ cs \<and> list_all P cs)"
  then show "appends P w w'"
    unfolding appends_def newCalls_def by auto
qed

lemma appends_refl: "appends P w w"
  by (simp add: appends_iff)

lemma appends_same: "pw_size w' = pw_size w \<Longrightarrow> calls w' = calls w \<Longrightarrow> appends P w w'"
  by (simp add: appends_iff)

lemma appends_trans: "appends P w w1 \<Longrightarrow> appends P w1 w2 \<Longrightarrow> appends P w w2"
  unfolding appends_iff by auto

lemma appends_recordCall: "P c \<Longrightarrow> appends P w (recordCall c w)"
  by (simp add: appends_iff recordCall_def)

lemma appends_andThen:
  assumes "appends P w (worldOf r)"
    and "\<And>w1. r = Done w1 \<Longrightarrow> appends P w1 (worldOf (k w1))"
  shows "appends P w (worldOf (andThen r k))"
proof (cases r)
  case (Done w1)
  with assms(1) have "appends P w w1" by (simp add: worldOf_def)
  moreover have "appends P w1 (worldOf (k w1))" using assms(2) Done by simp
  ultimately show ?thesis using Done by (simp add: andThen_def appends_trans)
next
  case (Thrown err w1)
  with assms(1) show ?thesis by (simp add: andThen_def worldOf_def)
qed

lemma appends_andThen_size:
  assumes "appends P w (worldOf r)"
    and "\<And>w1. pw_size w1 = pw_size w \<Longrightarrow> appends P w1 (worldOf (k w1))"
  shows "appends P w (worldOf (andThen r k))"
proof (rule appends_andThen [OF assms(1)])
  fix w1 assume "r = Done w1"
  with assms(1) have "pw_size w1 = pw_size w" by (simp add: worldOf_def appends_def)
  then show "appends P w1 (worldOf (k w1))" by (rule assms(2))
qed

lemma worldOf_Done [simp]: "worldOf (Done w) = w"
  by (simp add: worldOf_def)

lemma worldOf_Thrown [simp]: "worldOf (Thrown err w) = w"
  by (simp add: worldOf_def)

lemma appends_size: "appends P w w1 \<Longrightarrow> pw_size w1 = pw_size w"
  by (simp add: appends_def)

lemma hitTestPaneView_appends: "appends (clampedCall sz) w (snd (hitTestPaneView vs x y w))"
proof (induction vs arbitrary: w)
  case Nil
  then show ?case by (simp add: appends_refl)
next
  case (Cons v vs)
  let ?w1 = "recordCall (RendererOf (v_id v) (size_h (pw_size w)) (size_w (pw_size w))) w"
  let ?w2 = "recordCall (HitTestOf (v_id v) x y) ?w1"
  have 1: "appends (clampedCall sz) w ?w1" by (simp add: appends_recordCall)
  have 2: "appends (clampedCall sz) ?w1 ?w2" by (simp add: appends_recordCall)
  have 12: "appends (clampedCall sz) w ?w2" using 1 2 by (rule appends_trans)
  have r1: "appends (clampedCall sz) w (snd (hitTestPaneView vs x y ?w1))"
    using 1 Cons.IH by (rule appends_trans)
  have r2: "appends (clampedCall sz) w (snd (hitTestPaneView vs x y ?w2))"
    using 12 Cons.IH by (rule appends_trans)
  show ?case
    using r1 r2 12 by (simp add: Let_def split: option.splits)
qed

lemma hitTestSources_appends: "appends (clampedCall sz) w (snd (hitTestSources srcs x y w))"
proof (induction srcs arbitrary: w)
  case Nil
  then show ?case by (simp add: appends_refl)
next
  case (Cons s srcs)
  obtain r w1 where h: "hitTestPaneView (s_paneViews s) x y w = (r, w1)" by fastforce
  have 1: "appends (clampedCall sz) w w1"
    using hitTestPaneView_appends [of sz w "s_paneViews s" x y] h by simp
  have 2: "appends (clampedCall sz) w (snd (hitTestSources srcs x y w1))"
    using 1 Cons.IH by (rule appends_trans)
  show ?case using h 1 2 by (cases r) simp_all
qed

lemma hitTest_appends: "appends (clampedCall sz) w (snd (hitTest x y w))"
  by (simp add: hitTest_def appends_refl hitTestSources_appends split: option.splits)

lemma setCrosshairPosition_appends:
  "pw_size w = sz \<Longrightarrow> appends (clampedCall sz) w (worldOf (setCrosshairPosition x y w))"
  by (auto simp add: setCrosshairPosition_def appends_refl correctXCoord_def correctYCoord_def
      intro!: appends_recordCall split: option.splits)

lemma clearCrosshairPosition_appends: "appends (clampedCall sz) w (clearCrosshairPosition w)"
  by (simp add: clearCrosshairPosition_def appends_recordCall)

lemma tryExitTrackingMode_appends: "appends (clampedCall sz) w (tryExitTrackingMode w)"
  by (simp add: tryExitTrackingMode_def clearCrosshairPosition_def appends_iff recordCall_def)

lemma finishScroll_appends: "appends (clampedCall sz) w (worldOf (finishScroll w))"
  by (simp add: finishScroll_def appends_iff recordCall_def split: option.splits)

lemma startTrackingMode_appends:
  "pw_size w = sz \<Longrightarrow> appends (clampedCall sz) w (worldOf (startTrackingMode e p q w))"
  unfolding startTrackingMode_def
  by (rule appends_andThen)
     (auto simp add: setCrosshairPosition_def appends_iff recordCall_def correctXCoord_def
        correctYCoord_def split: option.splits)

lemma terminateKineticAnimation_appends:
  "appends (clampedCall sz) w (worldOf (terminateKineticAnimation e now w))"
  unfolding terminateKineticAnimation_def Let_def
proof (rule appends_andThen)
  show "appends (clampedCall sz) w
     (worldOf (if pw_scrollXAnimation w \<noteq> None \<and>
                  \<not> (case pw_scrollXAnimation w of None \<Rightarrow> True
                      | Some a \<Rightarrow> finished e (animAt w a) now)
               then finishScroll w else Done w))"
    by (simp add: finishScroll_appends appends_refl)
next
  fix w1
  show "appends (clampedCall sz) w1
     (worldOf (case pw_scrollXAnimation w1 of None \<Rightarrow> Done w1
               | Some a \<Rightarrow> Done ((updateAnim a terminate w1)\<lparr>pw_scrollXAnimation := None\<rparr>)))"
    by (simp add: appends_iff updateAnim_def split: option.splits)
qed

lemma clearFocusOrSelection_appends:
  "appends (clampedCall sz) w (worldOf (clearFocusOrSelection e w))"
  by (simp add: clearFocusOrSelection_def appends_refl appends_recordCall)

lemma updateAnim_fields [simp]:
  "pw_scrollXAnimation (updateAnim a f w) = pw_scrollXAnimation w"
  "pw_state (updateAnim a f w) = pw_state w"
  "pw_size (updateAnim a f w) = pw_size w"
  "calls (updateAnim a f w) = calls w"
  by (simp_all add: updateAnim_def)

lemma endScroll_appends: "appends (clampedCall sz) w (worldOf (endScroll e now event w))"
proof -
  have u: "appends (clampedCall sz) w (updateAnim a f w)" for a f
    by (simp add: appends_iff updateAnim_def)
  have fu: "appends (clampedCall sz) w (worldOf (finishScroll (updateAnim a f w)))" for a f
    using u finishScroll_appends by (rule appends_trans)
  have ru: "appends (clampedCall sz) w (recordCall (RequestAnimationFrame b) (updateAnim a f w))" for a b f
    by (rule appends_trans [OF u [of a f]]) (simp add: appends_recordCall)
  show ?thesis
    by (simp add: endScroll_def Let_def appends_refl finishScroll_appends fu ru
        split: option.splits)
qed

lemma pressedMoveCrosshair_appends:
  "pw_size w = sz \<Longrightarrow> appends (clampedCall sz) w (worldOf (pressedMoveCrosshair e event w))"
  by (auto simp add: pressedMoveCrosshair_def Let_def setCrosshairPosition_def appends_iff
      recordCall_def correctXCoord_def correctYCoord_def split: option.splits)

lemma pressedMoveScroll_calls:
  "pw_size (pressedMoveScroll e now event w) = pw_size w
   \<and> (\<exists>cs. calls (pressedMoveScroll e now event w) = calls w @ cs \<and> list_all isViewportCall cs)"
proof -
  let ?w1 = "sampleScrollStart e now event w"
  let ?w2 = "trackScrollPosition now event ?w1"
  let ?w3 = "beginScroll e now event ?w2"
  have 1: "appends isViewportCall w ?w1"
    by (simp add: sampleScrollStart_def appends_iff)
  have 2: "appends isViewportCall ?w1 ?w2"
    by (simp add: trackScrollPosition_def appends_iff split: option.splits)
  have 3: "appends isViewportCall ?w2 ?w3"
    by (simp add: beginScroll_def appends_iff Let_def recordCall_def split: option.splits)
  have 4: "appends isViewportCall ?w3 (continueScroll e event ?w3)"
    by (simp add: continueScroll_def appends_iff Let_def recordCall_def)
  have "appends isViewportCall w (pressedMoveScroll e now event w)"
    unfolding pressedMoveScroll_def
    using 1 2 3 4 by (blast intro: appends_trans)
  then show ?thesis by (simp add: appends_iff)
qed

lemma viewport_clamped: "isViewportCall c \<Longrightarrow> clampedCall sz c"
  by (cases c) simp_all

lemma pressedMoveScroll_appends:
  "appends (clampedCall sz) w (pressedMoveScroll e now event w)"
proof -
  obtain cs where cs: "calls (pressedMoveScroll e now event w) = calls w @ cs"
      "list_all isViewportCall cs"
    using pressedMoveScroll_calls by blast
  have "list_all (clampedCall sz) cs"
    using cs(2) by (simp add: list_all_iff viewport_clamped)
  then show ?thesis
    using cs(1) pressedMoveScroll_calls by (simp add: appends_iff)
qed

lemma mouseEnterEvent_appends:
  "pw_size w = sz \<Longrightarrow> appends (clampedCall sz) w (worldOf (mouseEnterEvent e event w))"
  by (simp add: mouseEnterEvent_def appends_refl setCrosshairPosition_appends)

lemma mouseDownCrosshair_appends:
  assumes s: "pw_size w = sz"
  shows "appends (clampedCall sz) w (worldOf (mouseDownCrosshair e event w))"
proof -
  let ?w1 = "w\<lparr>pw_initCrosshairPosition :=
                   Some \<lparr>pt_x = appliedX e (calls w), pt_y = appliedY e (calls w)\<rparr>,
                pw_startTrackPoint := Some \<lparr>pt_x = localX event, pt_y = localY event\<rparr>\<rparr>"
  have a: "appends (clampedCall sz) w ?w1" by (simp add: appends_same)
  have b: "appends (clampedCall sz) ?w1 (worldOf (setCrosshairPosition (localX event) (localY event) ?w1))"
    by (rule setCrosshairPosition_appends) (simp add: s)
  have c: "appends (clampedCall sz) w (worldOf (setCrosshairPosition (localX event) (localY event) ?w1))"
    using a b by (rule appends_trans)
  show ?thesis
    using a c setCrosshairPosition_appends [OF s]
    by (simp add: mouseDownCrosshair_def Let_def appends_refl)
qed

lemma mouseDownEvent_appends:
  assumes s: "pw_size w = sz"
  shows "appends (clampedCall sz) w (worldOf (mouseDownEvent e now event w))"
proof -
  let ?w0 = "w\<lparr>pw_longTap := False, pw_exitTrackingModeOnNextTry := (pw_startTrackPoint w \<noteq> None)\<rparr>"
  have 0: "appends (clampedCall sz) w ?w0" by (simp add: appends_same)
  have s0: "pw_size ?w0 = sz" using s by simp
  have chain: "appends (clampedCall sz) ?w0
       (worldOf (andThen (terminateKineticAnimation e now ?w0) (\<lambda>w1.
           andThen (clearFocusOrSelection e w1) (\<lambda>w2. mouseDownCrosshair e event w2))))"
  proof (rule appends_andThen_size [OF terminateKineticAnimation_appends])
    fix w1 :: world assume s1: "pw_size w1 = pw_size ?w0"
    show "appends (clampedCall sz) w1
       (worldOf (andThen (clearFocusOrSelection e w1) (\<lambda>w2. mouseDownCrosshair e event w2)))"
    proof (rule appends_andThen_size [OF clearFocusOrSelection_appends])
      fix w2 :: world assume "pw_size w2 = pw_size w1"
      then have "pw_size w2 = sz" using s1 s0 by simp
      then show "appends (clampedCall sz) w2 (worldOf (mouseDownCrosshair e event w2))"
        by (rule mouseDownCrosshair_appends)
    qed
  qed
  show ?thesis
    using 0 appends_trans [OF 0 chain] by (simp add: mouseDownEvent_def Let_def)
qed

lemma updateHover_appends: "appends (clampedCall sz) w (worldOf (updateHover x y w))"
proof -
  obtain r w1 where h: "hitTest x y w = (r, w1)" by fastforce
  have 1: "appends (clampedCall sz) w w1"
    using hitTest_appends [of sz w x y] h by simp
  have 2: "appends (clampedCall sz) w (recordCall c w1)" if "clampedCall sz c" for c
    using 1 by (rule appends_trans) (simp add: appends_recordCall that)
  have 3: "appends (clampedCall sz) w (recordCall c' (recordCall c w1))"
    if "clampedCall sz c" "clampedCall sz c'" for c c'
    using 2 [OF that(1)] by (rule appends_trans) (simp add: appends_recordCall that)
  show ?thesis
    using h by (cases r) (simp_all add: updateHover_def Let_def 2 3)
qed

lemma mouseMoveEvent_appends:
  assumes s: "pw_size w = sz"
  shows "appends (clampedCall sz) w (worldOf (mouseMoveEvent e event w))"
proof -
  let ?w1 = "if preventCrosshairMove e w then clearCrosshairPosition w else w"
  have 1: "appends (clampedCall sz) w ?w1"
    by (simp add: appends_refl clearCrosshairPosition_appends)
  then have s1: "pw_size ?w1 = sz" using s by (simp add: appends_def)
  have 2: "appends (clampedCall sz) ?w1
      (worldOf (andThen (setCrosshairPosition (localX event) (localY event) ?w1)
         (\<lambda>w2. updateHover (localX event) (localY event) w2)))"
    by (rule appends_andThen_size [OF setCrosshairPosition_appends [OF s1]])
       (rule updateHover_appends)
  show ?thesis
    using 1 appends_trans [OF 1 2]
    by (simp add: mouseMoveEvent_def Let_def appends_refl)
qed

lemma mouseClickEvent_appends:
  "appends (clampedCall sz) w (worldOf (mouseClickEvent e event w))"
proof -
  obtain r w1 where h: "hitTest (localX event) (localY event) w = (r, w1)" by fastforce
  have 1: "appends (clampedCall sz) w w1"
    using hitTest_appends [of sz w "localX event" "localY event"] h by simp
  let ?w2 = "case r of None \<Rightarrow> w1
             | Some ht \<Rightarrow> if v_clickHandler (ht_view ht)
                 then recordCall (ClickHandler (v_id (ht_view ht)) (localX event) (localY event)) w1
                 else w1"
  have 2: "appends (clampedCall sz) w1 ?w2"
    by (simp add: appends_refl appends_recordCall split: option.splits)
  let ?w3 = "if pw_clicked_listeners ?w2 > 0
             then recordCall (ClickedFire (appliedIndex e (calls ?w2)) (localX event) (localY event)) ?w2
             else ?w2"
  have 3: "appends (clampedCall sz) ?w2 ?w3"
    by (simp add: appends_refl appends_recordCall)
  have 4: "appends (clampedCall sz) ?w3 (tryExitTrackingMode ?w3)"
    by (rule tryExitTrackingMode_appends)
  have "appends (clampedCall sz) w (tryExitTrackingMode ?w3)"
    using 1 2 3 4 by (blast intro: appends_trans)
  moreover have "worldOf (mouseClickEvent e event w) = (if pw_state w = None then w else tryExitTrackingMode ?w3)"
    using h by (cases r) (simp_all add: mouseClickEvent_def Let_def)
  ultimately show ?thesis by (simp add: appends_refl)
qed

lemma pressedMoveGate_appends:
  "appends (clampedCall sz) w (worldOf (pressedMoveGate e now event w))"
  by (simp add: pressedMoveGate_def Let_def appends_refl pressedMoveScroll_appends)

lemma pressedMouseMoveEvent_appends:
  assumes s: "pw_size w = sz"
  shows "appends (clampedCall sz) w (worldOf (pressedMouseMoveEvent e now event w))"
proof -
  have "appends (clampedCall sz) w
      (worldOf (andThen (pressedMoveCrosshair e event w) (\<lambda>w1. pressedMoveGate e now event w1)))"
    by (rule appends_andThen_size [OF pressedMoveCrosshair_appends [OF s]])
       (rule pressedMoveGate_appends)
  then show ?thesis
    by (simp add: pressedMouseMoveEvent_def appends_refl)
qed

lemma mouseUpEvent_appends:
  "appends (clampedCall sz) w (worldOf (mouseUpEvent e now event w))"
proof -
  have 0: "appends (clampedCall sz) w (w\<lparr>pw_longTap := False\<rparr>)" by (simp add: appends_same)
  show ?thesis
    using appends_trans [OF 0 endScroll_appends]
    by (simp add: mouseUpEvent_def appends_refl)
qed

lemma longTapEvent_appends:
  assumes s: "pw_size w = sz"
  shows "appends (clampedCall sz) w (worldOf (longTapEvent e event w))"
proof -
  have 0: "appends (clampedCall sz) w (w\<lparr>pw_longTap := True\<rparr>)" by (simp add: appends_same)
  have 1: "appends (clampedCall sz) (w\<lparr>pw_longTap := True\<rparr>)
       (worldOf (startTrackingMode e p q (w\<lparr>pw_longTap := True\<rparr>)))" for p q
    by (rule startTrackingMode_appends) (simp add: s)
  show ?thesis
    using 0 appends_trans [OF 0 1]
    by (simp add: longTapEvent_def Let_def)
qed

lemma mouseLeaveEvent_appends:
  "appends (clampedCall sz) w (worldOf (mouseLeaveEvent e event w))"
  by (simp add: mouseLeaveEvent_def Let_def clearCrosshairPosition_def appends_refl appends_iff
      recordCall_def)

lemma handle_appends:
  "pw_size w = sz \<Longrightarrow> appends (clampedCall sz) w (worldOf (handle h e now event w))"
  by (cases h)
     (simp_all add: mouseEnterEvent_appends mouseDownEvent_appends mouseMoveEvent_appends
        pressedMouseMoveEvent_appends mouseClickEvent_appends mouseUpEvent_appends
        longTapEvent_appends mouseLeaveEvent_appends)

lemma clamped_inPane:
  "1 \<le> size_w sz \<Longrightarrow> 1 \<le> size_h sz \<Longrightarrow> clampedCall sz c \<Longrightarrow> inPaneCall sz c"
  by (cases c) simp_all

text \<open>
  C10, as amended. Every handler keeps the size and only adds calls, and every crosshair
  position it adds has its x in \<open>[0, max 0 (w - 1)]\<close> and its y in
  \<open>[0, max 0 (h - 1)]\<close> for the controller's size \<open>(w, h)\<close>; when the width and the
  height are at least 1 these are \<open>[0, w - 1]\<close> and \<open>[0, h - 1]\<close>.
\<close>

theorem crosshair_positions_clamped:
  "pw_size (worldOf (handle h e now event w)) = pw_size w
   \<and> take (length (calls w)) (calls (worldOf (handle h e now event w))) = calls w
   \<and> list_all (clampedCall (pw_size w)) (newCalls w (worldOf (handle h e now event w)))
   \<and> (1 \<le> size_w (pw_size w) \<and> 1 \<le> size_h (pw_size w) \<longrightarrow>
        list_all (inPaneCall (pw_size w)) (newCalls w (worldOf (handle h e now event w))))"
proof -
  have a: "appends (clampedCall (pw_size w)) w (worldOf (handle h e now event w))"
    by (rule handle_appends) simp
  then have "1 \<le> size_w (pw_size w) \<and> 1 \<le> size_h (pw_size w) \<longrightarrow>
        list_all (inPaneCall (pw_size w)) (newCalls w (worldOf (handle h e now event w)))"
    by (auto simp add: appends_def list_all_iff intro: clamped_inPane)
  with a show ?thesis by (simp add: appends_def)
qed

theorem crosshair_positions_clamped_witness:
  "newCalls exampleWorld
     (worldOf (handle Enter exampleEnv 0 (exampleEvent\<lparr>localX := 150, localY := - 5\<rparr>) exampleWorld))
     = [SetAndSaveCurrentPosition 99 0]
   \<and> list_all (inPaneCall (pw_size exampleWorld))
       (newCalls exampleWorld
         (worldOf (handle Enter exampleEnv 0 (exampleEvent\<lparr>localX := 150, localY := - 5\<rparr>)
            exampleWorld)))"
proof -
  have n: "newCalls exampleWorld
     (worldOf (handle Enter exampleEnv 0 (exampleEvent\<lparr>localX := 150, localY := - 5\<rparr>) exampleWorld))
     = [SetAndSaveCurrentPosition 99 0]"
    by (simp add: exampleWorld_def newPaneWidget_def exampleEvent_def exampleEnv_def
        mouseEnterEvent_def setCrosshairPosition_def correctXCoord_def correctYCoord_def
        worldOf_def recordCall_def newCalls_def)
  have s: "1 \<le> size_w (pw_size exampleWorld) \<and> 1 \<le> size_h (pw_size exampleWorld)"
    by (simp add: exampleWorld_def)
  show ?thesis
    using crosshair_positions_clamped
      [of Enter exampleEnv 0 "exampleEvent\<lparr>localX := 150, localY := - 5\<rparr>" exampleWorld] n s
    by simp
qed

text \<open>
  C10 as stated fails for a pane narrower or lower than one pixel: the controller starts
  with the size \<open>(0, 0)\<close>, and there the position sent is \<open>(0, 0)\<close>, which is not
  within \<open>[0, - 1]\<close>.
\<close>

theorem crosshair_in_pane_counterexample:
  "pw_size (newPaneWidget examplePane) = \<lparr>size_w = 0, size_h = 0\<rparr>
   \<and> newCalls (newPaneWidget examplePane)
       (worldOf (handle Enter exampleEnv 0 exampleEvent (newPaneWidget examplePane)))
       = [SetAndSaveCurrentPosition 0 0]
   \<and> \<not> inPaneCall (pw_size (newPaneWidget examplePane)) (SetAndSaveCurrentPosition 0 0)"
  by (simp add: newPaneWidget_def exampleEvent_def exampleEnv_def examplePane_def
      mouseEnterEvent_def setCrosshairPosition_def correctXCoord_def correctYCoord_def
      worldOf_def recordCall_def newCalls_def)

subsection \<open>Hit-test precedence\<close>

lemma firstClaim_append:
  "firstClaim c (xs @ ys) = (case firstClaim c xs of Some r \<Rightarrow> Some r | None \<Rightarrow> firstClaim c ys)"
  by (induction c xs rule: firstClaim.induct) (simp_all split: option.splits)

lemma askedViews_append:
  "askedViews c (xs @ ys) =
     (case firstClaim c xs of Some r \<Rightarrow> askedViews c xs | None \<Rightarrow> askedViews c xs @ askedViews c ys)"
  by (induction c xs rule: firstClaim.induct) (simp_all split: option.splits)

lemma hitTestPaneView_first:
  "size_h (pw_size w) = h \<Longrightarrow> size_w (pw_size w) = wd \<Longrightarrow>
   hitTestPaneView vs x y w =
     ((case firstClaim (claimOf h wd x y) (map (Pair s) vs) of
         None \<Rightarrow> None
       | Some r \<Rightarrow> Some \<lparr>hv_view = ht_view r, hv_object = ht_object r\<rparr>),
      w\<lparr>calls := calls w @
           concat (map (viewQueries h wd x y) (askedViews (claimOf h wd x y) (map (Pair s) vs)))\<rparr>)"
proof (induction vs arbitrary: w)
  case Nil
  then show ?case by simp
next
  case (Cons v vs)
  let ?w1 = "recordCall (RendererOf (v_id v) h wd) w"
  let ?w2 = "recordCall (HitTestOf (v_id v) x y) ?w1"
  have s1: "size_h (pw_size ?w1) = h" "size_w (pw_size ?w1) = wd"
    using Cons.prems by (simp_all add: recordCall_def)
  have s2: "size_h (pw_size ?w2) = h" "size_w (pw_size ?w2) = wd"
    using Cons.prems by (simp_all add: recordCall_def)
  note ih1 = Cons.IH [OF s1]
  note ih2 = Cons.IH [OF s2]
  show ?case
    using Cons.prems
    by (simp add: Let_def ih1 ih2 claimOf_def viewQueries_def split: option.splits)
       (simp add: recordCall_def)
qed

lemma hitTestSources_first:
  "size_h (pw_size w) = h \<Longrightarrow> size_w (pw_size w) = wd \<Longrightarrow>
   hitTestSources srcs x y w =
     (firstClaim (claimOf h wd x y) (sourceViewPairs srcs),
      w\<lparr>calls := calls w @
           concat (map (viewQueries h wd x y)
                     (askedViews (claimOf h wd x y) (sourceViewPairs srcs)))\<rparr>)"
proof (induction srcs arbitrary: w)
  case Nil
  then show ?case by (simp add: sourceViewPairs_def)
next
  case (Cons s srcs)
  let ?c = "claimOf h wd x y"
  let ?w1 = "w\<lparr>calls := calls w @
           concat (map (viewQueries h wd x y) (askedViews ?c (map (Pair s) (s_paneViews s))))\<rparr>"
  have pv: "hitTestPaneView (s_paneViews s) x y w =
     ((case firstClaim ?c (map (Pair s) (s_paneViews s)) of
         None \<Rightarrow> None
       | Some r \<Rightarrow> Some \<lparr>hv_view = ht_view r, hv_object = ht_object r\<rparr>), ?w1)"
    using Cons.prems by (rule hitTestPaneView_first)
  have s1: "size_h (pw_size ?w1) = h" "size_w (pw_size ?w1) = wd"
    using Cons.prems by simp_all
  note ih = Cons.IH [OF s1]
  have src: "firstClaim ?c (map (Pair s) vs) = Some r \<Longrightarrow> ht_source r = s" for vs r
    by (induction vs) (auto split: option.splits)
  have pairs: "sourceViewPairs (s # srcs) = map (Pair s) (s_paneViews s) @ sourceViewPairs srcs"
    by (simp add: sourceViewPairs_def)
  show ?case
  proof (cases "firstClaim ?c (map (Pair s) (s_paneViews s))")
    case None
    then show ?thesis
      by (simp add: pv ih pairs firstClaim_append askedViews_append)
  next
    case (Some r)
    then show ?thesis
      using src [OF Some]
      by (simp add: pv pairs firstClaim_append askedViews_append)
  qed
qed

lemma firstClaim_Some:
  "firstClaim c pairs = Some r \<Longrightarrow>
   \<exists>pre post. pairs = pre @ (ht_source r, ht_view r) # post
      \<and> (\<forall>sv \<in> set pre. c (snd sv) = None)
      \<and> c (ht_view r) = Some (ht_object r)
      \<and> askedViews c pairs = map snd pre @ [ht_view r]"
proof (induction c pairs rule: firstClaim.induct)
  case (1 c)
  then show ?case by simp
next
  case (2 c s v rest)
  show ?case
  proof (cases "c v")
    case None
    with 2 obtain pre post where p: "rest = pre @ (ht_source r, ht_view r) # post"
        "\<forall>sv \<in> set pre. c (snd sv) = None" "c (ht_view r) = Some (ht_object r)"
        "askedViews c rest = map snd pre @ [ht_view r]"
      by auto
    have "(s, v) # rest = ((s, v) # pre) @ (ht_source r, ht_view r) # post
        \<and> (\<forall>sv \<in> set ((s, v) # pre). c (snd sv) = None)
        \<and> c (ht_view r) = Some (ht_object r)
        \<and> askedViews c ((s, v) # rest) = map snd ((s, v) # pre) @ [ht_view r]"
      using p None by simp
    then show ?thesis by blast
  next
    case (Some obj)
    with 2 have r: "r = \<lparr>ht_source = s, ht_view = v, ht_object = obj\<rparr>" by simp
    have "(s, v) # rest = [] @ (ht_source r, ht_view r) # rest
        \<and> (\<forall>sv \<in> set []. c (snd sv) = None)
        \<and> c (ht_view r) = Some (ht_object r)
        \<and> askedViews c ((s, v) # rest) = map snd [] @ [ht_view r]"
      using Some r by simp
    then show ?thesis by blast
  qed
qed

lemma firstClaim_None:
  "firstClaim c pairs = None \<longleftrightarrow> (\<forall>sv \<in> set pairs. c (snd sv) = None)"
  by (induction c pairs rule: firstClaim.induct) (auto split: option.splits)

lemma askedViews_None:
  "firstClaim c pairs = None \<Longrightarrow> askedViews c pairs = map snd pairs"
  by (induction c pairs rule: firstClaim.induct) (auto split: option.splits)

text \<open>
  C2. For a pane, \<open>hitTest\<close> returns the first claim among the pane's (source, view)
  pairs in order, with its source, its view and the object of the hit; the calls it makes
  are the renderer and hit-test queries of the views up to and including the one that
  claims, and of no later view or source; it returns null when no view claims the point;
  a view with a null renderer or a renderer without \<open>hitTest\<close> does not claim and is
  passed over. The function has no exceptional result.
\<close>

theorem hitTest_first_match:
  assumes "pw_state w = Some state"
  shows "hitTest x y w =
           (firstClaim (claimAt w x y) (sourceViewPairs (orderedSources state)),
            w\<lparr>calls := calls w @
                 concat (map (queriesAt w x y)
                           (askedViews (claimAt w x y) (sourceViewPairs (orderedSources state))))\<rparr>)
       \<and> (\<forall>r. firstClaim (claimAt w x y) (sourceViewPairs (orderedSources state)) = Some r \<longrightarrow>
            (\<exists>pre post.
               sourceViewPairs (orderedSources state) = pre @ (ht_source r, ht_view r) # post
               \<and> (\<forall>sv \<in> set pre. claimAt w x y (snd sv) = None)
               \<and> claimAt w x y (ht_view r) = Some (ht_object r)
               \<and> askedViews (claimAt w x y) (sourceViewPairs (orderedSources state))
                   = map snd pre @ [ht_view r]))
       \<and> ((\<forall>sv \<in> set (sourceViewPairs (orderedSources state)). claimAt w x y (snd sv) = None) \<longrightarrow>
            fst (hitTest x y w) = None)"
proof -
  have 1: "hitTest x y w =
           (firstClaim (claimAt w x y) (sourceViewPairs (orderedSources state)),
            w\<lparr>calls := calls w @
                 concat (map (queriesAt w x y)
                           (askedViews (claimAt w x y) (sourceViewPairs (orderedSources state))))\<rparr>)"
    using assms by (simp add: hitTest_def hitTestSources_first claimAt_def queriesAt_def)
  have 2: "\<forall>r. firstClaim (claimAt w x y) (sourceViewPairs (orderedSources state)) = Some r \<longrightarrow>
            (\<exists>pre post.
               sourceViewPairs (orderedSources state) = pre @ (ht_source r, ht_view r) # post
               \<and> (\<forall>sv \<in> set pre. claimAt w x y (snd sv) = None)
               \<and> claimAt w x y (ht_view r) = Some (ht_object r)
               \<and> askedViews (claimAt w x y) (sourceViewPairs (orderedSources state))
                   = map snd pre @ [ht_view r])"
    using firstClaim_Some by blast
  have 3: "(\<forall>sv \<in> set (sourceViewPairs (orderedSources state)). claimAt w x y (snd sv) = None) \<longrightarrow>
            fst (hitTest x y w) = None"
    using 1 by (simp add: firstClaim_None)
  from 1 2 3 show ?thesis by blast
qed

theorem hitTest_first_match_witness:
  "fst (hitTest 5 5 overlapWorld) = Some \<lparr>ht_source = sourceA, ht_view = viewA3, ht_object = 7\<rparr>
   \<and> calls (snd (hitTest 5 5 overlapWorld)) =
       [RendererOf 1 100 100, RendererOf 2 100 100, RendererOf 3 100 100, HitTestOf 3 5 5]
   \<and> fst (hitTest 50 50 overlapWorld) = Some \<lparr>ht_source = sourceB, ht_view = viewB1, ht_object = 9\<rparr>"
  using hitTest_first_match [of overlapWorld overlapPane 5 5]
    hitTest_first_match [of overlapWorld overlapPane 50 50]
  by (simp add: overlapWorld_def overlapPane_def sourceA_def sourceB_def viewA1_def viewA2_def
      viewA3_def viewB1_def exampleWorld_def newPaneWidget_def sourceViewPairs_def claimOf_def
      viewQueries_def claimAt_def queriesAt_def)

subsection \<open>Tracking mode\<close>






end
